theory Spec2Isabelle
  imports Main "HOL-Library.AList" "HOL-Library.Multiset" "HOL-Library.Log_Nat"
begin

section \<open>Timestamps\<close>

text \<open>
  The generators work with naive \<^verbatim>\<open>datetime\<close> values and \<^verbatim>\<open>timedelta\<close>s, both of
  microsecond resolution. A \<open>datetime\<close> is the number of microseconds since midnight of
  day 0 of the calendar, a \<open>timedelta\<close> a (signed) number of microseconds. The records
  store timestamps as \<^verbatim>\<open>t.isoformat() + "Z"\<close> and read them back with
  \<^verbatim>\<open>datetime.fromisoformat(s.replace("Z", ""))\<close>, which returns \<^verbatim>\<open>t\<close> again, so a
  stored timestamp is the \<open>datetime\<close> itself. The range limit of \<^verbatim>\<open>datetime\<close> (years
  1 to 9999) is not modelled.
\<close>

type_synonym datetime = int
type_synonym timedelta = int

definition timedelta :: "int \<Rightarrow> int \<Rightarrow> int \<Rightarrow> timedelta" where
  \<comment> \<open>\<^verbatim>\<open>timedelta(days=d, hours=h, minutes=m)\<close>\<close>
  "timedelta d h m = d * 86400000000 + h * 3600000000 + m * 60000000"

definition date :: "datetime \<Rightarrow> int" where
  \<comment> \<open>\<^verbatim>\<open>t.date()\<close>, as the number of the calendar day\<close>
  "date t = t div 86400000000"

text \<open>
  The duration of a session is \<^verbatim>\<open>int((end - start).total_seconds())\<close>. A \<^verbatim>\<open>timedelta\<close>
  holds a whole number of microseconds; \<^verbatim>\<open>total_seconds\<close> divides it by \<open>10^6\<close> with
  Python's true division of integers, which returns the double nearest to the quotient
  (53 bits of significand, ties to the even significand); \<^verbatim>\<open>int\<close> then truncates towards
  zero. A double is written here as a pair \<open>(m, e)\<close> standing for \<open>m * 2^e\<close>. Quotients of
  a \<^verbatim>\<open>timedelta\<close> lie between \<open>10^-6\<close> and \<open>10^14\<close> in absolute value when they
  are not zero, so neither overflow nor subnormal numbers occur.
\<close>

definition round_half_even :: "int \<Rightarrow> int \<Rightarrow> int" where
  \<comment> \<open>the integer nearest to \<open>n / d\<close> for \<open>0 < d\<close>, a tie going to the even one\<close>
  "round_half_even n d =
     (let q = n div d; r = n mod d
      in if 2 * r < d then q else if d < 2 * r then q + 1 else if even q then q else q + 1)"

definition floor_log2 :: "int \<Rightarrow> int \<Rightarrow> int" where
  \<comment> \<open>the integer \<open>k\<close> with \<open>2^k \<le> n / d < 2^(k+1)\<close>, for \<open>0 < n\<close> and \<open>0 < d\<close>\<close>
  "floor_log2 n d =
     (let k = bitlen n - bitlen d
      in if (if 0 \<le> k then d * 2 ^ nat k \<le> n else d \<le> n * 2 ^ nat (- k)) then k else k - 1)"

definition true_divide :: "int \<Rightarrow> int \<Rightarrow> int \<times> int" where
  \<comment> \<open>\<^verbatim>\<open>n / d\<close> on integers \<open>0 \<le> n\<close> and \<open>0 < d\<close>: the nearest double\<close>
  "true_divide n d =
     (if n = 0 then (0, 0)
      else let e = floor_log2 n d - 52
           in if 0 \<le> e then (round_half_even n (d * 2 ^ nat e), e)
              else (round_half_even (n * 2 ^ nat (- e)) d, e))"

definition int_of_float :: "int \<times> int \<Rightarrow> int" where
  \<comment> \<open>\<^verbatim>\<open>int(x)\<close> for a double \<open>0 \<le> x\<close>\<close>
  "int_of_float x = (case x of (m, e) \<Rightarrow> if 0 \<le> e then m * 2 ^ nat e else m div 2 ^ nat (- e))"

definition total_seconds_int :: "timedelta \<Rightarrow> int" where
  \<comment> \<open>\<^verbatim>\<open>int(td.total_seconds())\<close>\<close>
  "total_seconds_int td =
     (if 0 \<le> td then int_of_float (true_divide td 1000000)
      else - int_of_float (true_divide (- td) 1000000))"

section \<open>Records\<close>

datatype json = JNull | JStr string | JInt int | JCents int
  \<comment> \<open>\<open>JCents n\<close> is the float \<open>n / 100\<close> that \<^verbatim>\<open>round(x, 2)\<close> returns\<close>

type_synonym metadata = "(string \<times> json) list"
  \<comment> \<open>the dict handed to \<^verbatim>\<open>json.dumps\<close>, keys in insertion order\<close>

record user =
  u_user_id :: string
  u_email :: string
  u_created_at :: datetime
  u_updated_at :: datetime
  u_first_name :: string
  u_last_name :: string
  u_country :: string
  u_timezone :: string
  u_subscription_tier :: string
  u_metadata :: metadata

record event =
  e_event_id :: string
  e_user_id :: string
  e_event_type :: string
  e_event_timestamp :: datetime
  e_session_id :: string
  e_device_type :: string
  e_platform :: string
  e_app_version :: string
  e_metadata :: metadata
  e_created_at :: datetime

record session =
  s_session_id :: string
  s_user_id :: string
  s_started_at :: datetime
  s_ended_at :: "datetime option"
  s_duration_seconds :: "int option"
  s_page_views :: int
  s_events_count :: int
  s_device_type :: string
  s_platform :: string
  s_country :: "string option"
  s_metadata :: metadata

section \<open>Randomness, clock and identifiers\<close>

text \<open>
  The generators read three sources outside the program: the pseudo-random generator of
  \<^verbatim>\<open>random\<close>, the wall clock (\<^verbatim>\<open>datetime.now()\<close>) and \<^verbatim>\<open>uuid.uuid4()\<close>. The
  \<open>world\<close> holds what each source will return, call by call, and how many calls were
  made. A computation takes the world and returns an error (the exception raised) or its
  value and the new world. Only the range of a random draw is modelled, not its
  distribution: the raw draw is an arbitrary number, reduced to the requested range.
\<close>

datatype error = ValueError | IndexError

record world =
  rand_src :: "nat \<Rightarrow> nat"
  rand_pos :: nat
  clock_src :: "nat \<Rightarrow> datetime"
  clock_pos :: nat
  uuid_src :: "nat \<Rightarrow> string"
  uuid_pos :: nat

type_synonym 'a gen = "world \<Rightarrow> error + ('a \<times> world)"

definition gret :: "'a \<Rightarrow> 'a gen" where
  "gret x w = Inr (x, w)"

definition raise :: "error \<Rightarrow> 'a gen" where
  "raise e w = Inl e"

definition gbind :: "'a gen \<Rightarrow> ('a \<Rightarrow> 'b gen) \<Rightarrow> 'b gen" where
  \<comment> \<open>\<open>gbind m f\<close> runs \<open>m\<close>, then \<open>f\<close> on its value; an exception ends the run\<close>
  "gbind m f w = (case m w of Inl e \<Rightarrow> Inl e | Inr (x, w') \<Rightarrow> f x w')"

definition random_draw :: "nat gen" where
  "random_draw w = Inr (rand_src w (rand_pos w), w\<lparr>rand_pos := rand_pos w + 1\<rparr>)"

definition now :: "datetime gen" where
  \<comment> \<open>\<^verbatim>\<open>datetime.now()\<close>\<close>
  "now w = Inr (clock_src w (clock_pos w), w\<lparr>clock_pos := clock_pos w + 1\<rparr>)"

definition uuid4_hex8 :: "string gen" where
  \<comment> \<open>\<^verbatim>\<open>uuid.uuid4().hex[:8]\<close>\<close>
  "uuid4_hex8 w = Inr (uuid_src w (uuid_pos w), w\<lparr>uuid_pos := uuid_pos w + 1\<rparr>)"

definition randint :: "int \<Rightarrow> int \<Rightarrow> int gen" where
  \<comment> \<open>\<^verbatim>\<open>random.randint(a, b)\<close>: some \<open>a \<le> n \<le> b\<close>, ValueError on an empty range\<close>
  "randint a b =
     (if b < a then raise ValueError
      else gbind random_draw (\<lambda>r. gret (a + int r mod (b - a + 1))))"

definition choice :: "'a list \<Rightarrow> 'a gen" where
  \<comment> \<open>\<^verbatim>\<open>random.choice(seq)\<close>: IndexError on an empty sequence\<close>
  "choice xs =
     (if xs = [] then raise IndexError
      else gbind random_draw (\<lambda>r. gret (xs ! (r mod length xs))))"

definition choices :: "'a list \<Rightarrow> 'a gen" where
  \<comment> \<open>\<^verbatim>\<open>random.choices(seq, weights=ws)[0]\<close> with the positive weights of the source:
      every element can be drawn, the weights change the distribution only\<close>
  "choices xs = choice xs"

definition uniform_round2 :: "int \<Rightarrow> int \<Rightarrow> json gen" where
  \<comment> \<open>\<^verbatim>\<open>round(random.uniform(a, b), 2)\<close>, in hundredths\<close>
  "uniform_round2 a b =
     gbind random_draw (\<lambda>r. gret (JCents (a * 100 + int r mod ((b - a) * 100 + 1))))"

definition random_lt_fifth :: "bool gen" where
  \<comment> \<open>\<^verbatim>\<open>random.random() < 0.2\<close>\<close>
  "random_lt_fifth = gbind random_draw (\<lambda>r. gret (r mod 5 = 0))"

definition range_py :: "int \<Rightarrow> int list" where
  \<comment> \<open>\<^verbatim>\<open>range(n)\<close>: empty when \<open>n \<le> 0\<close>\<close>
  "range_py n = map int [0..<nat n]"

fun for_each :: "'a list \<Rightarrow> ('a \<Rightarrow> 'b list gen) \<Rightarrow> 'b list gen" where
  \<comment> \<open>a \<^verbatim>\<open>for\<close> loop whose body appends records to the result list: the body returns
      the records it appends, in order\<close>
  "for_each [] body = gret []"
| "for_each (x # xs) body =
     gbind (body x) (\<lambda>ys. gbind (for_each xs body) (\<lambda>zs. gret (ys @ zs)))"

subsection \<open>Formatting\<close>

definition digit :: "nat \<Rightarrow> char" where
  "digit n = ''0123456789'' ! n"

fun str_nat :: "nat \<Rightarrow> string" where
  "str_nat n = (if n < 10 then [digit n] else str_nat (n div 10) @ [digit (n mod 10)])"

declare str_nat.simps [simp del]

definition str :: "int \<Rightarrow> string" where
  \<comment> \<open>\<^verbatim>\<open>str(i)\<close>, the decimal digits that an f-string writes for an int\<close>
  "str i = (if i < 0 then CHR ''-'' # str_nat (nat (- i)) else str_nat (nat i))"

definition zero_padded :: "nat \<Rightarrow> int \<Rightarrow> string" where
  \<comment> \<open>\<^verbatim>\<open>f"{i:0wd}"\<close> for \<open>i \<ge> 0\<close>\<close>
  "zero_padded w i = replicate (w - length (str i)) (CHR ''0'') @ str i"

definition lower_char :: "char \<Rightarrow> char" where
  "lower_char c =
     (let n = (of_char c :: nat) in if 65 \<le> n \<and> n \<le> 90 then char_of (n + 32) else c)"

definition lower :: "string \<Rightarrow> string" where
  "lower s = map lower_char s"

section \<open>Session derivation\<close>

text \<open>
  \<^verbatim>\<open>generate_session_data\<close> of \<^verbatim>\<open>scripts/generate_sample_data.py\<close>; the third part of
  \<^verbatim>\<open>generate_sample_data\<close> in \<^verbatim>\<open>simple_data_generator.py\<close> consists of the same statements.
  The dict \<^verbatim>\<open>sessions\<close> keeps its keys in insertion order: it is an association list
  with distinct keys, a new key appended at the end (\<open>AList.update\<close>) and an existing
  entry changed in place (\<open>AList.map_entry\<close>).
\<close>

definition new_session :: "event \<Rightarrow> session" where
  "new_session event =
     \<lparr> s_session_id = e_session_id event,
       s_user_id = e_user_id event,
       s_started_at = e_event_timestamp event,
       s_ended_at = None,
       s_duration_seconds = None,
       s_page_views = 0,
       s_events_count = 0,
       s_device_type = e_device_type event,
       s_platform = e_platform event,
       s_country = None,
       s_metadata = [] \<rparr>"

definition later_than_end :: "datetime \<Rightarrow> session \<Rightarrow> bool" where
  \<comment> \<open>\<^verbatim>\<open>ended_at is None or event_time > fromisoformat(ended_at)\<close>\<close>
  "later_than_end event_time s =
     (case s_ended_at s of None \<Rightarrow> True | Some ended \<Rightarrow> event_time > ended)"

definition fold_event :: "(string \<times> session) list \<Rightarrow> event \<Rightarrow> (string \<times> session) list" where
  \<comment> \<open>the body of \<^verbatim>\<open>for event in events\<close>\<close>
  "fold_event sessions event =
     (let session_id = e_session_id event;
          event_time = e_event_timestamp event;
          sessions1 = (if map_of sessions session_id = None
                       then AList.update session_id (new_session event) sessions
                       else sessions);
          sessions2 = AList.map_entry session_id
                        (\<lambda>s. s\<lparr>s_events_count := s_events_count s + 1\<rparr>) sessions1;
          sessions3 = (if e_event_type event = ''page_view''
                       then AList.map_entry session_id
                              (\<lambda>s. s\<lparr>s_page_views := s_page_views s + 1\<rparr>) sessions2
                       else sessions2)
      in AList.map_entry session_id
           (\<lambda>s. if later_than_end event_time s then s\<lparr>s_ended_at := Some event_time\<rparr> else s)
           sessions3)"

definition calculate_duration :: "session \<Rightarrow> session" where
  \<comment> \<open>the body of \<^verbatim>\<open>for session in sessions.values()\<close>; an isoformat string is never
      empty, so \<^verbatim>\<open>if session["ended_at"]\<close> is the test for \<^verbatim>\<open>None\<close>\<close>
  "calculate_duration s =
     (case s_ended_at s of
        None \<Rightarrow> s
      | Some ended \<Rightarrow> s\<lparr>s_duration_seconds := Some (total_seconds_int (ended - s_started_at s))\<rparr>)"

definition generate_session_data :: "event list \<Rightarrow> session list" where
  "generate_session_data events =
     map (calculate_duration \<circ> snd) (foldl fold_event [] events)"

subsection \<open>What the fold computes\<close>

definition session_events :: "string \<Rightarrow> event list \<Rightarrow> event list" where
  \<comment> \<open>the events of the list that carry a session identifier, in list order\<close>
  "session_events sid events = filter (\<lambda>e. e_session_id e = sid) events"

definition folded :: "event list \<Rightarrow> session" where
  \<comment> \<open>the accumulator of a session after its events \<open>g\<close> (first event first) are folded in\<close>
  "folded g =
     (new_session (hd g))
       \<lparr> s_ended_at := Some (Max (set (map e_event_timestamp g))),
         s_page_views := int (length (filter (\<lambda>e. e_event_type e = ''page_view'') g)),
         s_events_count := int (length g) \<rparr>"

section \<open>The generator of scripts/generate\_sample\_data.py\<close>

text \<open>
  The module constants \<^verbatim>\<open>NUM_USERS\<close>, \<^verbatim>\<open>NUM_DAYS\<close> and \<^verbatim>\<open>EVENTS_PER_USER_PER_DAY\<close> are
  the configuration; the functions read them where the source does.
\<close>

record config =
  NUM_USERS :: int
  NUM_DAYS :: int
  EVENTS_PER_USER_PER_DAY :: "int \<times> int"

definition source_config :: config where
  "source_config = \<lparr> NUM_USERS = 1000, NUM_DAYS = 30, EVENTS_PER_USER_PER_DAY = (1, 20) \<rparr>"

definition PRODUCTS :: "string list" where
  "PRODUCTS = [''prod_001'', ''prod_002'', ''prod_003'', ''prod_004'', ''prod_005'',
               ''prod_006'', ''prod_007'', ''prod_008'', ''prod_009'', ''prod_010'']"

definition CATEGORIES :: "string list" where
  "CATEGORIES = [''electronics'', ''clothing'', ''books'', ''home'', ''sports'', ''beauty'',
                 ''toys'', ''food'']"

definition EVENT_TYPES :: "string list" where
  "EVENT_TYPES = [''purchase'', ''page_view'', ''signup'', ''login'', ''logout'', ''click'',
                  ''scroll'', ''search'']"

definition PLATFORMS :: "string list" where
  "PLATFORMS = [''web'', ''mobile'']"

definition DEVICE_TYPES :: "string list" where
  "DEVICE_TYPES = [''desktop'', ''mobile'', ''tablet'']"

definition COUNTRIES :: "string list" where
  "COUNTRIES = [''US'', ''CA'', ''UK'', ''DE'', ''FR'', ''AU'', ''JP'', ''BR'']"

definition SUBSCRIPTION_TIERS :: "string list" where
  "SUBSCRIPTION_TIERS = [''basic'', ''premium'', ''enterprise'']"

definition generate_user_id :: "string gen" where
  "generate_user_id = gbind uuid4_hex8 (\<lambda>h. gret (''user_'' @ h))"

definition generate_event_id :: "string gen" where
  "generate_event_id = gbind uuid4_hex8 (\<lambda>h. gret (''evt_'' @ h))"

definition generate_session_id :: "string gen" where
  "generate_session_id = gbind uuid4_hex8 (\<lambda>h. gret (''sess_'' @ h))"

definition generate_email :: "string \<Rightarrow> string \<Rightarrow> string gen" where
  "generate_email first_name last_name =
     gbind (choice [''gmail.com'', ''yahoo.com'', ''hotmail.com'', ''outlook.com'', ''company.com''])
       (\<lambda>domain. gret (lower first_name @ ''.'' @ lower last_name @ ''@'' @ domain))"

definition generate_user :: "user list gen" where
  \<comment> \<open>the body of \<^verbatim>\<open>for i in range(NUM_USERS)\<close>, the calls in the order of evaluation\<close>
  "generate_user =
     gbind (choice [''John'', ''Jane'', ''Bob'', ''Alice'', ''Charlie'', ''Diana'', ''Eve'',
                    ''Frank'', ''Grace'', ''Henry'']) (\<lambda>first_name.
     gbind (choice [''Smith'', ''Johnson'', ''Williams'', ''Brown'', ''Jones'', ''Garcia'',
                    ''Miller'', ''Davis'', ''Rodriguez'', ''Martinez'']) (\<lambda>last_name.
     gbind now (\<lambda>t.
     gbind (randint 1 365) (\<lambda>created_days.
     let created_at = t - timedelta created_days 0 0 in
     gbind generate_user_id (\<lambda>user_id.
     gbind (generate_email first_name last_name) (\<lambda>email.
     gbind (randint 0 30) (\<lambda>updated_days.
     gbind (choice COUNTRIES) (\<lambda>country.
     gbind (choice [''America/New_York'', ''America/Los_Angeles'', ''Europe/London'',
                    ''Europe/Berlin'', ''Asia/Tokyo'']) (\<lambda>tz.
     gbind (choices SUBSCRIPTION_TIERS) (\<lambda>tier.
     gbind (choice [''organic'', ''google_ads'', ''facebook_ads'', ''referral'', ''email''])
       (\<lambda>source.
     gbind (choice [''summer_sale'', ''winter_promo'', ''new_user'', ''retention'', ''upsell''])
       (\<lambda>campaign.
     gbind random_lt_fifth (\<lambda>with_code.
     gbind (if with_code
            then gbind (randint 1000 9999) (\<lambda>n. gret (JStr (''REF'' @ str n)))
            else gret JNull) (\<lambda>referral_code.
     gret [\<lparr> u_user_id = user_id,
             u_email = email,
             u_created_at = created_at,
             u_updated_at = created_at + timedelta updated_days 0 0,
             u_first_name = first_name,
             u_last_name = last_name,
             u_country = country,
             u_timezone = tz,
             u_subscription_tier = tier,
             u_metadata = [(''source'', JStr source), (''campaign'', JStr campaign),
                           (''referral_code'', referral_code)] \<rparr>]))))))))))))))"

definition generate_user_data :: "config \<Rightarrow> user list gen" where
  "generate_user_data cfg = for_each (range_py (NUM_USERS cfg)) (\<lambda>i. generate_user)"

definition event_metadata :: "string \<Rightarrow> metadata gen" where
  \<comment> \<open>the \<^verbatim>\<open>if\<close>/\<^verbatim>\<open>elif\<close> chain on the event type; \<^verbatim>\<open>metadata = {}\<close> stays when no branch
      is taken\<close>
  "event_metadata event_type =
     (if event_type = ''purchase'' then
        gbind (uniform_round2 10 500) (\<lambda>amount.
        gbind (choice [''USD'', ''EUR'', ''GBP'', ''CAD'']) (\<lambda>currency.
        gbind (choice PRODUCTS) (\<lambda>product_id.
        gbind (choice CATEGORIES) (\<lambda>category.
        gret [(''amount'', amount), (''currency'', JStr currency),
              (''product_id'', JStr product_id), (''category'', JStr category)]))))
      else if event_type = ''page_view'' then
        gbind (choice [''/home'', ''/products'', ''/checkout'', ''/profile'', ''/search''])
          (\<lambda>page.
        gbind (choice CATEGORIES) (\<lambda>category.
        gret [(''page'', JStr page), (''category'', JStr category)]))
      else if event_type = ''signup'' then
        gbind (choice [''google_ads'', ''facebook_ads'', ''organic'', ''referral'']) (\<lambda>source.
        gbind (choice [''summer_sale'', ''winter_promo'', ''new_user'']) (\<lambda>campaign.
        gret [(''source'', JStr source), (''campaign'', JStr campaign)]))
      else if event_type \<in> set [''click'', ''scroll''] then
        gbind (choice [''button'', ''link'', ''image'', ''text'']) (\<lambda>element.
        gbind (choice [''/home'', ''/products'', ''/checkout'', ''/profile'']) (\<lambda>page.
        gret [(''element'', JStr element), (''page'', JStr page)]))
      else if event_type = ''search'' then
        gbind (choice [''laptop'', ''shirt'', ''book'', ''phone'', ''shoes'']) (\<lambda>query.
        gbind (randint 0 100) (\<lambda>results_count.
        gret [(''query'', JStr query), (''results_count'', JInt results_count)]))
      else gret [])"

definition generate_event :: "string \<Rightarrow> string \<Rightarrow> datetime \<Rightarrow> event list gen" where
  \<comment> \<open>the body of \<^verbatim>\<open>for event_num in range(num_events)\<close>\<close>
  "generate_event user_id session_id session_start =
     gbind (randint 0 120) (\<lambda>minutes.
     let event_time = session_start + timedelta 0 0 minutes in
     gbind (choices EVENT_TYPES) (\<lambda>event_type.
     gbind (event_metadata event_type) (\<lambda>metadata.
     gbind generate_event_id (\<lambda>event_id.
     gbind (choice DEVICE_TYPES) (\<lambda>device_type.
     gbind (choice PLATFORMS) (\<lambda>platform.
     gbind (randint 1 3) (\<lambda>major.
     gbind (randint 0 9) (\<lambda>minor.
     gbind (randint 0 9) (\<lambda>patch.
     gbind now (\<lambda>created_at.
     gret [\<lparr> e_event_id = event_id,
             e_user_id = user_id,
             e_event_type = event_type,
             e_event_timestamp = event_time,
             e_session_id = session_id,
             e_device_type = device_type,
             e_platform = platform,
             e_app_version = str major @ ''.'' @ str minor @ ''.'' @ str patch,
             e_metadata = metadata,
             e_created_at = created_at \<rparr>]))))))))))"

definition generate_day ::
  "config \<Rightarrow> datetime \<Rightarrow> string \<Rightarrow> datetime \<Rightarrow> int \<Rightarrow> event list gen" where
  \<comment> \<open>the body of \<^verbatim>\<open>for day_offset in range(NUM_DAYS)\<close>; \<^verbatim>\<open>continue\<close> appends nothing\<close>
  "generate_day cfg start_date user_id user_created_at day_offset =
     (let event_date = start_date + timedelta day_offset 0 0 in
      if date event_date < date user_created_at then gret []
      else
        gbind (randint (fst (EVENTS_PER_USER_PER_DAY cfg)) (snd (EVENTS_PER_USER_PER_DAY cfg)))
          (\<lambda>num_events.
        gbind generate_session_id (\<lambda>session_id.
        gbind (randint 8 20) (\<lambda>hours.
        gbind (randint 0 59) (\<lambda>minutes.
        let session_start = event_date + timedelta 0 hours minutes in
        for_each (range_py num_events)
          (\<lambda>event_num. generate_event user_id session_id session_start))))))"

definition generate_user_events :: "config \<Rightarrow> datetime \<Rightarrow> user \<Rightarrow> event list gen" where
  \<comment> \<open>the body of \<^verbatim>\<open>for user in users\<close>\<close>
  "generate_user_events cfg start_date user =
     (let user_id = u_user_id user;
          user_created_at = u_created_at user
      in for_each (range_py (NUM_DAYS cfg))
           (generate_day cfg start_date user_id user_created_at))"

definition generate_event_data :: "config \<Rightarrow> user list \<Rightarrow> event list gen" where
  "generate_event_data cfg users =
     gbind now (\<lambda>t.
     let start_date = t - timedelta (NUM_DAYS cfg) 0 0 in
     for_each users (generate_user_events cfg start_date))"


section \<open>The generator of simple\_data\_generator.py\<close>

text \<open>
  \<^verbatim>\<open>generate_sample_data\<close> builds users, events and sessions in one function. Its local
  constants \<^verbatim>\<open>num_users\<close>, \<^verbatim>\<open>num_events\<close> and \<^verbatim>\<open>num_days\<close> are the configuration.
\<close>

record simple_config =
  num_users :: int
  num_events :: int
  num_days :: int

definition simple_source_config :: simple_config where
  "simple_source_config = \<lparr> num_users = 100, num_events = 1000, num_days = 30 \<rparr>"

definition simple_categories :: "string list" where
  "simple_categories = [''electronics'', ''clothing'', ''books'', ''home'', ''sports'', ''beauty'']"

definition simple_user :: "int \<Rightarrow> user list gen" where
  \<comment> \<open>the body of \<^verbatim>\<open>for i in range(num_users)\<close>\<close>
  "simple_user i =
     (let user_id = ''user_'' @ zero_padded 4 (i + 1);
          first_name = ''User'' @ str (i + 1);
          last_name = ''Example'';
          email = ''user'' @ str (i + 1) @ ''@example.com''
      in
      gbind now (\<lambda>t1.
      gbind (randint 1 365) (\<lambda>created_days.
      gbind now (\<lambda>t2.
      gbind (randint 0 30) (\<lambda>updated_days.
      gbind (choice COUNTRIES) (\<lambda>country.
      gbind (choice SUBSCRIPTION_TIERS) (\<lambda>tier.
      gret [\<lparr> u_user_id = user_id,
              u_email = email,
              u_created_at = t1 - timedelta created_days 0 0,
              u_updated_at = t2 - timedelta updated_days 0 0,
              u_first_name = first_name,
              u_last_name = last_name,
              u_country = country,
              u_timezone = ''America/New_York'',
              u_subscription_tier = tier,
              u_metadata = [(''source'', JStr ''sample_data''), (''campaign'', JStr ''demo'')]
            \<rparr>])))))))"

definition simple_event_metadata :: "string \<Rightarrow> metadata gen" where
  "simple_event_metadata event_type =
     (if event_type = ''purchase'' then
        gbind (uniform_round2 10 500) (\<lambda>amount.
        gbind (randint 1 10) (\<lambda>n.
        gbind (choice simple_categories) (\<lambda>category.
        gret [(''amount'', amount), (''currency'', JStr ''USD''),
              (''product_id'', JStr (''prod_'' @ zero_padded 3 n)),
              (''category'', JStr category)])))
      else if event_type = ''page_view'' then
        gbind (choice [''/home'', ''/products'', ''/checkout'', ''/profile'', ''/search''])
          (\<lambda>page.
        gbind (choice simple_categories) (\<lambda>category.
        gret [(''page'', JStr page), (''category'', JStr category)]))
      else if event_type = ''signup'' then
        gbind (choice [''google_ads'', ''facebook_ads'', ''organic'', ''referral'']) (\<lambda>source.
        gbind (choice [''summer_sale'', ''winter_promo'', ''new_user'']) (\<lambda>campaign.
        gret [(''source'', JStr source), (''campaign'', JStr campaign)]))
      else gret [])"

definition simple_event :: "simple_config \<Rightarrow> string list \<Rightarrow> int \<Rightarrow> event list gen" where
  \<comment> \<open>the body of \<^verbatim>\<open>for i in range(num_events)\<close>\<close>
  "simple_event cfg user_ids i =
     gbind (choice user_ids) (\<lambda>user_id.
     gbind (choice EVENT_TYPES) (\<lambda>event_type.
     gbind now (\<lambda>t.
     gbind (randint 0 (num_days cfg)) (\<lambda>days.
     gbind (randint 0 23) (\<lambda>hours.
     gbind (randint 0 59) (\<lambda>minutes.
     let event_time = t - timedelta days hours minutes in
     gbind (simple_event_metadata event_type) (\<lambda>metadata.
     gbind (randint 1 50) (\<lambda>n.
     gbind (choice DEVICE_TYPES) (\<lambda>device_type.
     gbind (choice PLATFORMS) (\<lambda>platform.
     gbind now (\<lambda>created_at.
     gret [\<lparr> e_event_id = ''evt_'' @ zero_padded 6 (i + 1),
             e_user_id = user_id,
             e_event_type = event_type,
             e_event_timestamp = event_time,
             e_session_id = ''sess_'' @ zero_padded 3 n,
             e_device_type = device_type,
             e_platform = platform,
             e_app_version = ''1.0.0'',
             e_metadata = metadata,
             e_created_at = created_at \<rparr>])))))))))))"

definition simple_users :: "simple_config \<Rightarrow> user list gen" where
  "simple_users cfg = for_each (range_py (num_users cfg)) simple_user"

definition simple_events :: "simple_config \<Rightarrow> user list \<Rightarrow> event list gen" where
  "simple_events cfg users =
     (let user_ids = map u_user_id users
      in for_each (range_py (num_events cfg)) (simple_event cfg user_ids))"

definition generate_sample_data ::
  "simple_config \<Rightarrow> (user list \<times> event list \<times> session list) gen" where
  \<comment> \<open>the three parts in sequence, without the writing of the files\<close>
  "generate_sample_data cfg =
     gbind (simple_users cfg) (\<lambda>users.
     gbind (simple_events cfg users) (\<lambda>events.
     gret (users, events, generate_session_data events)))"

section \<open>Sample events\<close>

definition mk_event ::
  "string \<Rightarrow> string \<Rightarrow> string \<Rightarrow> string \<Rightarrow> datetime \<Rightarrow> string \<Rightarrow> string \<Rightarrow> event" where
  "mk_event eid uid ty sid t dev plat =
     \<lparr> e_event_id = eid, e_user_id = uid, e_event_type = ty, e_event_timestamp = t,
       e_session_id = sid, e_device_type = dev, e_platform = plat, e_app_version = ''1.0.0'',
       e_metadata = [], e_created_at = t \<rparr>"

definition late_event :: event where
  "late_event = mk_event ''evt_000001'' ''user_0001'' ''page_view'' ''sess_001''
                  (timedelta 19000 9 30) ''desktop'' ''web''"

definition early_event :: event where
  "early_event = mk_event ''evt_000002'' ''user_0001'' ''login'' ''sess_001''
                   (timedelta 19000 9 0) ''mobile'' ''mobile''"

definition other_user_event :: event where
  "other_user_event = mk_event ''evt_000003'' ''user_0002'' ''click'' ''sess_001''
                        (timedelta 19000 9 45) ''tablet'' ''web''"

definition session_totals :: "session \<Rightarrow> string \<times> int \<times> int \<times> datetime option" where
  \<comment> \<open>identifier, event count, page-view count and end of a session record\<close>
  "session_totals s = (s_session_id s, s_events_count s, s_page_views s, s_ended_at s)"

section \<open>Notions used in the statements\<close>

definition results :: "'a gen \<Rightarrow> 'a set" where
  \<comment> \<open>the values a computation can return, over all worlds\<close>
  "results m = {x. \<exists>w w'. m w = Inr (x, w')}"

definition metadata_keys :: "string \<Rightarrow> string list" where
  \<comment> \<open>the metadata keys per event type, as the specification lists them\<close>
  "metadata_keys event_type =
     (if event_type = ''purchase'' then [''amount'', ''currency'', ''product_id'', ''category'']
      else if event_type = ''page_view'' then [''page'', ''category'']
      else if event_type = ''signup'' then [''source'', ''campaign'']
      else if event_type = ''click'' \<or> event_type = ''scroll'' then [''element'', ''page'']
      else if event_type = ''search'' then [''query'', ''results_count'']
      else [])"

definition simple_metadata_keys :: "string \<Rightarrow> string list" where
  \<comment> \<open>the metadata keys per event type of \<^verbatim>\<open>simple_data_generator.py\<close>\<close>
  "simple_metadata_keys event_type =
     (if event_type = ''purchase'' then [''amount'', ''currency'', ''product_id'', ''category'']
      else if event_type = ''page_view'' then [''page'', ''category'']
      else if event_type = ''signup'' then [''source'', ''campaign'']
      else [])"

definition generated_ok :: "string \<Rightarrow> datetime \<Rightarrow> event \<Rightarrow> bool" where
  \<comment> \<open>what holds of an event generated for the user \<open>uid\<close> created at \<open>created\<close>\<close>
  "generated_ok uid created e \<longleftrightarrow>
     e_user_id e = uid \<and> date created \<le> date (e_event_timestamp e) \<and>
     e_event_type e \<in> set EVENT_TYPES \<and>
     map fst (e_metadata e) = metadata_keys (e_event_type e)"

section \<open>Sample runs\<close>

definition run :: "'a gen \<Rightarrow> world \<Rightarrow> error + 'a" where
  \<comment> \<open>the value that a computation returns, or the exception that ends it\<close>
  "run m w = (case m w of Inl e \<Rightarrow> Inl e | Inr (x, w') \<Rightarrow> Inr x)"

definition returned :: "'a list gen \<Rightarrow> world \<Rightarrow> 'a list" where
  "returned m w = (case run m w of Inl e \<Rightarrow> [] | Inr xs \<Rightarrow> xs)"

definition crossing_world :: world where
  \<comment> \<open>a run that starts one minute before midnight: the clock reads 23:59 the first
      time and 00:01 of the next day afterwards\<close>
  "crossing_world =
     \<lparr> rand_src = (\<lambda>n. 0), rand_pos = 0,
       clock_src = (\<lambda>n. if n = 0 then timedelta 18999 23 59 else timedelta 19000 0 1),
       clock_pos = 0,
       uuid_src = (\<lambda>n. zero_padded 8 (int n)), uuid_pos = 0 \<rparr>"

definition small_config :: config where
  "small_config = \<lparr> NUM_USERS = 1, NUM_DAYS = 2, EVENTS_PER_USER_PER_DAY = (1, 3) \<rparr>"

definition late_user :: user where
  "late_user =
     \<lparr> u_user_id = ''user_0000000a'', u_email = ''jane.smith@gmail.com'',
       u_created_at = timedelta 18998 23 59, u_updated_at = timedelta 18998 23 59,
       u_first_name = ''Jane'', u_last_name = ''Smith'', u_country = ''US'',
       u_timezone = ''Europe/London'', u_subscription_tier = ''basic'', u_metadata = [] \<rparr>"


definition event_times :: "event list \<Rightarrow> (string \<times> datetime) list" where
  "event_times events = map (\<lambda>e. (e_user_id e, e_event_timestamp e)) events"


definition counting_world :: world where
  \<comment> \<open>the draws are 0, 1, 2, ...\<close>
  "counting_world =
     \<lparr> rand_src = (\<lambda>n. n), rand_pos = 0,
       clock_src = (\<lambda>n. timedelta 19000 12 0), clock_pos = 0,
       uuid_src = (\<lambda>n. zero_padded 8 (int n)), uuid_pos = 0 \<rparr>"

definition simple_small_config :: simple_config where
  "simple_small_config = \<lparr> num_users = 1, num_events = 1, num_days = 30 \<rparr>"

definition event_keys :: "event list \<Rightarrow> (string \<times> string list) list" where
  \<comment> \<open>the type of each event with the keys of its metadata\<close>
  "event_keys events = map (\<lambda>e. (e_event_type e, map fst (e_metadata e))) events"

definition sample_event_keys :: "simple_config \<Rightarrow> world \<Rightarrow> error + (string \<times> string list) list" where
  "sample_event_keys cfg w =
     (case run (generate_sample_data cfg) w of Inl e \<Rightarrow> Inl e
      | Inr (users, events, sessions) \<Rightarrow> Inr (event_keys events))"

definition thirties_world :: world where
  \<comment> \<open>the draws are 0, 30, 60, ...\<close>
  "thirties_world =
     \<lparr> rand_src = (\<lambda>n. 30 * n), rand_pos = 0,
       clock_src = (\<lambda>n. timedelta 19000 12 0), clock_pos = 0,
       uuid_src = (\<lambda>n. zero_padded 8 (int n)), uuid_pos = 0 \<rparr>"

definition user_dates :: "user list \<Rightarrow> (string \<times> datetime \<times> datetime) list" where
  \<comment> \<open>each user with its creation and last-update timestamps\<close>
  "user_dates users = map (\<lambda>u. (u_user_id u, u_created_at u, u_updated_at u)) users"

definition sample_user_dates ::
  "simple_config \<Rightarrow> world \<Rightarrow> error + (string \<times> datetime \<times> datetime) list" where
  "sample_user_dates cfg w =
     (case run (generate_sample_data cfg) w of Inl e \<Rightarrow> Inl e
      | Inr (users, events, sessions) \<Rightarrow> Inr (user_dates users))"

definition mixing_world :: world where
  \<comment> \<open>every draw is 0, except the twentieth, which is 1\<close>
  "mixing_world =
     \<lparr> rand_src = (\<lambda>n. if n = 19 then 1 else 0), rand_pos = 0,
       clock_src = (\<lambda>n. timedelta 19000 12 0), clock_pos = 0,
       uuid_src = (\<lambda>n. zero_padded 8 (int n)), uuid_pos = 0 \<rparr>"

definition simple_pair_config :: simple_config where
  "simple_pair_config = \<lparr> num_users = 2, num_events = 2, num_days = 30 \<rparr>"

definition sample_session_users ::
  "simple_config \<Rightarrow> world \<Rightarrow> error + (string \<times> string) list \<times> (string \<times> string) list" where
  \<comment> \<open>session identifier and user of each event, and of each session record\<close>
  "sample_session_users cfg w =
     (case run (generate_sample_data cfg) w of Inl e \<Rightarrow> Inl e
      | Inr (users, events, sessions) \<Rightarrow>
          Inr (map (\<lambda>e. (e_session_id e, e_user_id e)) events,
               map (\<lambda>s. (s_session_id s, s_user_id s)) sessions))"



section \<open>The conversion of a duration to whole seconds\<close>

text \<open>
  Below \<open>2^34\<close> seconds (about 544 years) the doubles are less than \<open>2^-19\<close> apart, which
  is less than two microseconds, so the double nearest to a quotient by \<open>10^6\<close> has the same
  whole part as the quotient: the conversion is exact there. It is not exact everywhere:
  from 0001-01-01 to the last microsecond of 9999-12-31 there are 315537897599.999999
  seconds, for which the conversion returns 315537897600.
\<close>

lemma round_half_even_bounds:
  assumes "0 < d"
  shows "2 * a - d \<le> 2 * (d * round_half_even a d)" "2 * (d * round_half_even a d) \<le> 2 * a + d"
proof -
  have a: "a = d * (a div d) + a mod d" by simp
  have r: "0 \<le> a mod d" "a mod d < d" using assms by simp_all
  define q where "q = a div d"
  define r where "r = a mod d"
  have eq: "a = d * q + r" and r0: "0 \<le> r" and r1: "r < d" using a r by (simp_all add: q_def r_def)
  have m: "round_half_even a d = q \<and> 2 * r \<le> d \<or> round_half_even a d = q + 1 \<and> d \<le> 2 * r"
    unfolding round_half_even_def Let_def q_def [symmetric] r_def [symmetric] by auto
  from m eq r0 r1 show "2 * a - d \<le> 2 * (d * round_half_even a d)"
    by (auto simp: algebra_simps)
  from m eq r0 r1 show "2 * (d * round_half_even a d) \<le> 2 * a + d"
    by (auto simp: algebra_simps)
qed

lemma floor_log2_lower:
  assumes "0 < n" "0 < d" "0 \<le> floor_log2 n d"
  shows "d * 2 ^ nat (floor_log2 n d) \<le> n"
proof -
  define k where "k = bitlen n - bitlen d"
  show ?thesis
  proof (cases "if 0 \<le> k then d * 2 ^ nat k \<le> n else d \<le> n * 2 ^ nat (- k)")
    case True
    then have f: "floor_log2 n d = k" by (simp add: floor_log2_def k_def [symmetric])
    with assms(3) True show ?thesis by simp
  next
    case False
    then have f: "floor_log2 n d = k - 1" by (simp add: floor_log2_def k_def [symmetric])
    with assms(3) have k1: "1 \<le> k" by simp
    have bn: "2 ^ nat (bitlen n - 1) \<le> n" using bitlen_bounds [OF assms(1)] by simp
    have bd: "d < 2 ^ nat (bitlen d)" using bitlen_bounds [OF assms(2)] by simp
    have bd0: "0 \<le> bitlen d" by (simp add: bitlen_nonneg)
    have "d * 2 ^ nat (k - 1) \<le> 2 ^ nat (bitlen d) * 2 ^ nat (k - 1)"
      using bd by (intro mult_right_mono) simp_all
    also have "\<dots> = 2 ^ (nat (bitlen d) + nat (k - 1))" by (simp add: power_add)
    also have "nat (bitlen d) + nat (k - 1) = nat (bitlen n - 1)"
      using k1 bd0 by (simp add: k_def nat_add_distrib [symmetric])
    finally show ?thesis using bn f by simp
  qed
qed

lemma total_seconds_int_exact:
  assumes "0 \<le> td" "td < 2 ^ 34 * 1000000"
  shows "total_seconds_int td = td div 1000000"
proof (cases "td = 0")
  case True
  then show ?thesis by (simp add: total_seconds_int_def true_divide_def int_of_float_def)
next
  case False
  with assms have pos: "0 < td" by simp
  define e where "e = floor_log2 td 1000000 - 52"
  have "floor_log2 td 1000000 \<le> 33"
  proof (rule ccontr)
    assume "\<not> floor_log2 td 1000000 \<le> 33"
    then have ge: "34 \<le> floor_log2 td 1000000" by simp
    then have "1000000 * 2 ^ nat (floor_log2 td 1000000) \<le> td"
      using floor_log2_lower [OF pos, of 1000000] by simp
    moreover have "(2::int) ^ 34 \<le> 2 ^ nat (floor_log2 td 1000000)"
      using ge by (intro power_increasing) simp_all
    ultimately show False using assms(2) by simp
  qed
  then have e: "e \<le> - 19" by (simp add: e_def)
  define s :: int where "s = 2 ^ nat (- e)"
  have "(2::int) ^ 19 \<le> 2 ^ nat (- e)" using e by (intro power_increasing) simp_all
  then have s: "524288 \<le> s" by (simp add: s_def)
  define m where "m = round_half_even (td * s) 1000000"
  define q where "q = td div 1000000"
  have ts: "total_seconds_int td = m div s"
    using assms(1) False e
    by (simp add: total_seconds_int_def true_divide_def int_of_float_def Let_def
        e_def [symmetric] s_def [symmetric] m_def [symmetric])
  have "td = 1000000 * q + td mod 1000000" by (simp add: q_def)
  moreover have "0 \<le> td mod 1000000" "td mod 1000000 < 1000000" by simp_all
  ultimately have lo: "q * 1000000 \<le> td" and hi: "td \<le> q * 1000000 + 999999"
    by arith+
  have los: "q * 1000000 * s \<le> td * s" using lo s by (intro mult_right_mono) simp_all
  have his: "td * s \<le> (q * 1000000 + 999999) * s" using hi s by (intro mult_right_mono) simp_all
  have b1: "2 * (td * s) - 1000000 \<le> 2 * (1000000 * m)"
    and b2: "2 * (1000000 * m) \<le> 2 * (td * s) + 1000000"
    unfolding m_def by (rule round_half_even_bounds; simp)+
  define y where "y = q * s"
  have los': "1000000 * y \<le> td * s" using los by (simp add: y_def algebra_simps)
  have his': "td * s \<le> 1000000 * y + 999999 * s" using his by (simp add: y_def algebra_simps)
  have "y \<le> m" using los' b1 by arith
  moreover have "m < y + s" using his' b2 s by arith
  ultimately have "m div s = q"
    using s by (intro int_div_pos_eq [where r = "m - y"]) (simp_all add: y_def algebra_simps)
  with ts show ?thesis by (simp add: q_def)
qed

lemma total_seconds_int_rounds_up:
  "total_seconds_int (315537897599 * 1000000 + 999999) = 315537897600"
  "total_seconds_int (2 ^ 34 * 1000000 + 999999) = 2 ^ 34 + 1"
  "total_seconds_int ((2 ^ 34 - 1) * 1000000 + 999999) = 2 ^ 34 - 1"
  by code_simp+

section \<open>Properties of the session derivation\<close>

subsection \<open>The accumulated dict\<close>

lemma fold_event_map_of:
  "map_of (fold_event ss ev) =
     (map_of ss)(e_session_id ev \<mapsto>
        (let s0 = (case map_of ss (e_session_id ev) of None \<Rightarrow> new_session ev | Some s \<Rightarrow> s);
             s1 = s0\<lparr>s_events_count := s_events_count s0 + 1\<rparr>;
             s2 = (if e_event_type ev = ''page_view'' then s1\<lparr>s_page_views := s_page_views s1 + 1\<rparr> else s1)
         in if later_than_end (e_event_timestamp ev) s2 then s2\<lparr>s_ended_at := Some (e_event_timestamp ev)\<rparr> else s2))"
  by (rule ext) (auto simp: fold_event_def Let_def map_of_map_entry update_conv' split: option.splits)

lemma fold_event_distinct:
  "distinct (map fst ss) \<Longrightarrow> distinct (map fst (fold_event ss ev))"
  by (simp add: fold_event_def Let_def distinct_map_entry distinct_update)

lemma fold_event_keys:
  "fst ` set (fold_event ss ev) = insert (e_session_id ev) (fst ` set ss)"
  by (auto simp: fold_event_def Let_def dom_map_entry dom_update map_of_eq_None_iff)

lemma folded_single:
  "folded [ev] =
     (let s1 = (new_session ev)\<lparr>s_events_count := 1\<rparr>;
          s2 = (if e_event_type ev = ''page_view'' then s1\<lparr>s_page_views := 1\<rparr> else s1)
      in s2\<lparr>s_ended_at := Some (e_event_timestamp ev)\<rparr>)"
  by (simp add: folded_def new_session_def Let_def)

lemma folded_snoc:
  assumes "g \<noteq> []"
  shows "folded (g @ [ev]) =
     (let s0 = folded g;
          s1 = s0\<lparr>s_events_count := s_events_count s0 + 1\<rparr>;
          s2 = (if e_event_type ev = ''page_view'' then s1\<lparr>s_page_views := s_page_views s1 + 1\<rparr> else s1)
      in if later_than_end (e_event_timestamp ev) s2 then s2\<lparr>s_ended_at := Some (e_event_timestamp ev)\<rparr> else s2)"
proof -
  let ?T = "set (map e_event_timestamp g)"
  have ne: "?T \<noteq> {}" and fin: "finite ?T" using assms by simp_all
  have mx: "Max (set (map e_event_timestamp (g @ [ev]))) = max (e_event_timestamp ev) (Max ?T)"
    using Max_insert [OF fin ne, of "e_event_timestamp ev"] by simp
  define m where "m = Max ?T"
  have "folded (g @ [ev]) =
          (new_session (hd g))
            \<lparr> s_ended_at := Some (max (e_event_timestamp ev) m),
              s_page_views := int (length (filter (\<lambda>e. e_event_type e = ''page_view'') (g @ [ev]))),
              s_events_count := int (length (g @ [ev])) \<rparr>"
    unfolding folded_def mx m_def using assms by simp
  moreover have "folded g =
          (new_session (hd g))
            \<lparr> s_ended_at := Some m,
              s_page_views := int (length (filter (\<lambda>e. e_event_type e = ''page_view'') g)),
              s_events_count := int (length g) \<rparr>"
    unfolding folded_def m_def by simp
  ultimately show ?thesis
    by (simp add: Let_def later_than_end_def max_def new_session_def)
qed

lemma session_events_snoc:
  "session_events sid (evs @ [ev]) =
     session_events sid evs @ (if e_session_id ev = sid then [ev] else [])"
  by (simp add: session_events_def)

lemma foldl_fold_event_distinct: "distinct (map fst (foldl fold_event [] evs))"
  by (induction evs rule: rev_induct) (simp_all add: fold_event_distinct)

lemma foldl_fold_event_map_of:
  "map_of (foldl fold_event [] evs) sid =
     (if session_events sid evs = [] then None else Some (folded (session_events sid evs)))"
proof (induction evs rule: rev_induct)
  case Nil
  show ?case by (simp add: session_events_def)
next
  case (snoc ev evs)
  show ?case
  proof (cases "e_session_id ev = sid")
    case False
    then show ?thesis
      using snoc by (simp add: fold_event_map_of session_events_snoc)
  next
    case True
    show ?thesis
    proof (cases "session_events sid evs = []")
      case True
      with \<open>e_session_id ev = sid\<close> snoc show ?thesis
        by (simp add: fold_event_map_of session_events_snoc folded_single later_than_end_def
              new_session_def Let_def)
    next
      case False
      with \<open>e_session_id ev = sid\<close> snoc show ?thesis
        by (simp add: fold_event_map_of session_events_snoc folded_snoc Let_def)
    qed
  qed
qed

lemma generate_session_data_iff:
  "s \<in> set (generate_session_data evs) \<longleftrightarrow>
     (\<exists>sid. session_events sid evs \<noteq> [] \<and> s = calculate_duration (folded (session_events sid evs)))"
proof -
  let ?al = "foldl fold_event [] evs"
  have "s \<in> set (generate_session_data evs) \<longleftrightarrow> (\<exists>sid a. (sid, a) \<in> set ?al \<and> s = calculate_duration a)"
    by (force simp: generate_session_data_def)
  also have "\<dots> \<longleftrightarrow> (\<exists>sid a. map_of ?al sid = Some a \<and> s = calculate_duration a)"
    using foldl_fold_event_distinct [of evs] by simp
  also have "\<dots> \<longleftrightarrow> (\<exists>sid. session_events sid evs \<noteq> [] \<and> s = calculate_duration (folded (session_events sid evs)))"
    by (auto simp: foldl_fold_event_map_of)
  finally show ?thesis .
qed

lemma folded_fields:
  "s_session_id (calculate_duration (folded g)) = e_session_id (hd g)"
  "s_user_id (calculate_duration (folded g)) = e_user_id (hd g)"
  "s_started_at (calculate_duration (folded g)) = e_event_timestamp (hd g)"
  "s_ended_at (calculate_duration (folded g)) = Some (Max (set (map e_event_timestamp g)))"
  "s_duration_seconds (calculate_duration (folded g)) =
     Some (total_seconds_int (Max (set (map e_event_timestamp g)) - e_event_timestamp (hd g)))"
  "s_events_count (calculate_duration (folded g)) = int (length g)"
  "s_page_views (calculate_duration (folded g)) =
     int (length (filter (\<lambda>e. e_event_type e = ''page_view'') g))"
  "s_device_type (calculate_duration (folded g)) = e_device_type (hd g)"
  "s_platform (calculate_duration (folded g)) = e_platform (hd g)"
  by (simp_all add: calculate_duration_def folded_def new_session_def)

lemma session_events_hd:
  "session_events sid evs \<noteq> [] \<Longrightarrow> e_session_id (hd (session_events sid evs)) = sid"
proof -
  assume "session_events sid evs \<noteq> []"
  then have "hd (session_events sid evs) \<in> set (session_events sid evs)" by simp
  then show ?thesis by (simp add: session_events_def)
qed

lemma generate_session_data_cases:
  assumes "s \<in> set (generate_session_data evs)"
  obtains "session_events (s_session_id s) evs \<noteq> []"
    and "s = calculate_duration (folded (session_events (s_session_id s) evs))"
proof -
  from assms obtain sid where g: "session_events sid evs \<noteq> []"
    and s: "s = calculate_duration (folded (session_events sid evs))"
    by (auto simp: generate_session_data_iff)
  have "s_session_id s = sid" using g s by (simp add: folded_fields session_events_hd)
  with g s that show thesis by simp
qed

lemmas sample_defs =
  generate_session_data_def fold_event_def new_session_def later_than_end_def
  calculate_duration_def total_seconds_int_exact late_event_def early_event_def
  other_user_event_def mk_event_def timedelta_def Let_def

lemma sample_early_late:
  "generate_session_data [early_event, late_event] =
     [\<lparr> s_session_id = ''sess_001'', s_user_id = ''user_0001'',
        s_started_at = timedelta 19000 9 0, s_ended_at = Some (timedelta 19000 9 30),
        s_duration_seconds = Some 1800, s_page_views = 1, s_events_count = 2,
        s_device_type = ''mobile'', s_platform = ''mobile'', s_country = None,
        s_metadata = [] \<rparr>]"
  by (simp add: sample_defs)

lemma sample_late_early:
  "generate_session_data [late_event, early_event] =
     [\<lparr> s_session_id = ''sess_001'', s_user_id = ''user_0001'',
        s_started_at = timedelta 19000 9 30, s_ended_at = Some (timedelta 19000 9 30),
        s_duration_seconds = Some 0, s_page_views = 1, s_events_count = 2,
        s_device_type = ''desktop'', s_platform = ''web'', s_country = None,
        s_metadata = [] \<rparr>]"
  by (simp add: sample_defs)

subsection \<open>Start, end and duration of a session\<close>

text \<open>
  Claim C4. Every session record returned by \<open>generate_session_data\<close> has an end
  timestamp, the end is not before the start, and the duration is set to the conversion of
  the difference of the two to seconds, which is the difference in whole seconds when the
  session spans less than \<open>2^34\<close> seconds. A session record exists only for a session
  identifier that at least one event carries, so this covers the sessions of a single
  event as well.
\<close>

theorem session_end_and_duration:
  assumes "s \<in> set (generate_session_data events)"
  shows "\<exists>ended. s_ended_at s = Some ended \<and> s_started_at s \<le> ended \<and>
           s_duration_seconds s = Some (total_seconds_int (ended - s_started_at s)) \<and>
           (ended - s_started_at s < 2 ^ 34 * 1000000 \<longrightarrow>
              s_duration_seconds s = Some ((ended - s_started_at s) div 1000000))"
proof -
  let ?g = "session_events (s_session_id s) events"
  let ?T = "set (map e_event_timestamp ?g)"
  from assms have g: "?g \<noteq> []" and s: "s = calculate_duration (folded ?g)"
    by (auto elim: generate_session_data_cases)
  have "e_event_timestamp (hd ?g) \<in> ?T" using g by simp
  then have le: "e_event_timestamp (hd ?g) \<le> Max ?T" by (intro Max_ge) simp_all
  have "s_ended_at s = Some (Max ?T)" by (subst s) (simp add: folded_fields)
  moreover have "s_started_at s = e_event_timestamp (hd ?g)" by (subst s) (simp add: folded_fields)
  moreover have "s_duration_seconds s = Some (total_seconds_int (Max ?T - e_event_timestamp (hd ?g)))"
    by (subst s) (simp add: folded_fields)
  ultimately show ?thesis using le by (simp add: total_seconds_int_exact)
qed

theorem session_end_and_duration_witness:
  "hd (generate_session_data [early_event, late_event])
     \<in> set (generate_session_data [early_event, late_event]) \<and>
   s_ended_at (hd (generate_session_data [early_event, late_event])) = Some (timedelta 19000 9 30) \<and>
   s_started_at (hd (generate_session_data [early_event, late_event])) = timedelta 19000 9 0 \<and>
   timedelta 19000 9 30 - timedelta 19000 9 0 < 2 ^ 34 * 1000000 \<and>
   (\<exists>ended. s_ended_at (hd (generate_session_data [early_event, late_event])) = Some ended \<and>
      s_started_at (hd (generate_session_data [early_event, late_event])) \<le> ended \<and>
      s_duration_seconds (hd (generate_session_data [early_event, late_event])) =
        Some (total_seconds_int
               (ended - s_started_at (hd (generate_session_data [early_event, late_event])))) \<and>
      (ended - s_started_at (hd (generate_session_data [early_event, late_event]))
         < 2 ^ 34 * 1000000 \<longrightarrow>
       s_duration_seconds (hd (generate_session_data [early_event, late_event])) =
         Some ((ended - s_started_at (hd (generate_session_data [early_event, late_event])))
                div 1000000)))"
proof -
  have mem: "hd (generate_session_data [early_event, late_event])
               \<in> set (generate_session_data [early_event, late_event])"
    by (simp add: sample_early_late)
  have f: "s_ended_at (hd (generate_session_data [early_event, late_event]))
             = Some (timedelta 19000 9 30)"
    "s_started_at (hd (generate_session_data [early_event, late_event])) = timedelta 19000 9 0"
    by (simp_all add: sample_early_late)
  have b: "timedelta 19000 9 30 - timedelta 19000 9 0 < 2 ^ 34 * 1000000"
    by (simp add: timedelta_def)
  show ?thesis
    using mem f b session_end_and_duration [OF mem] by blast
qed

text \<open>
  Claim C3. The end of a session is the latest timestamp of its events, but the start is
  the timestamp of the first event of the list that carries the session identifier: it
  is written when the entry is created and never compared again. With the later event
  first, the session starts at 09:30 although its earliest event is at 09:00.
\<close>

theorem started_at_not_earliest:
  "map s_started_at (generate_session_data [late_event, early_event]) = [timedelta 19000 9 30] \<and>
   map s_ended_at (generate_session_data [late_event, early_event]) = [Some (timedelta 19000 9 30)] \<and>
   Min (set (map e_event_timestamp (session_events ''sess_001'' [late_event, early_event])))
     = timedelta 19000 9 0"
  by (simp add: sample_late_early)
     (simp add: session_events_def late_event_def early_event_def mk_event_def timedelta_def)

subsection \<open>Order of the event list\<close>

lemma session_events_mset:
  "mset (session_events sid evs) = filter_mset (\<lambda>e. e_session_id e = sid) (mset evs)"
  by (simp add: session_events_def)

lemma folded_totals:
  "session_totals (calculate_duration (folded g)) =
     (e_session_id (hd g), int (size (mset g)),
      int (size (filter_mset (\<lambda>e. e_event_type e = ''page_view'') (mset g))),
      Some (Max (e_event_timestamp ` set_mset (mset g))))"
proof -
  have "length (filter (\<lambda>e. e_event_type e = ''page_view'') g) =
          size (filter_mset (\<lambda>e. e_event_type e = ''page_view'') (mset g))"
    by (metis mset_filter size_mset)
  then show ?thesis by (simp add: session_totals_def folded_fields)
qed

lemma session_totals_perm_sub:
  assumes "mset evs = mset evs'" and "s \<in> set (generate_session_data evs)"
  shows "session_totals s \<in> session_totals ` set (generate_session_data evs')"
proof -
  let ?sid = "s_session_id s"
  from assms(2) have g: "session_events ?sid evs \<noteq> []"
    and s: "s = calculate_duration (folded (session_events ?sid evs))"
    by (auto elim: generate_session_data_cases)
  have m: "mset (session_events ?sid evs) = mset (session_events ?sid evs')"
    using assms(1) by (simp add: session_events_mset)
  with g have g': "session_events ?sid evs' \<noteq> []" by (metis mset_zero_iff)
  let ?s' = "calculate_duration (folded (session_events ?sid evs'))"
  have "?s' \<in> set (generate_session_data evs')"
    using g' by (auto simp: generate_session_data_iff)
  moreover have "session_totals s = session_totals ?s'"
    by (subst s) (simp add: folded_totals m session_events_hd g g')
  ultimately show ?thesis by blast
qed

text \<open>
  Claim C2, as amended. The session record copies \<open>user_id\<close>, \<open>started_at\<close>,
  \<open>device_type\<close> and \<open>platform\<close> from the first event of the list that carries the
  session identifier, so the records depend on the order of the list. What does not depend
  on the order: the set of session identifiers and, for each of them, the event count, the
  page-view count and the end timestamp. Running the derivation again on the same list
  gives the same records, as for any function.
\<close>

theorem session_totals_order_independent:
  assumes "mset events = mset events'"
  shows "session_totals ` set (generate_session_data events) =
         session_totals ` set (generate_session_data events')"
proof
  show "session_totals ` set (generate_session_data events)
          \<subseteq> session_totals ` set (generate_session_data events')"
    using session_totals_perm_sub [OF assms] by blast
  show "session_totals ` set (generate_session_data events')
          \<subseteq> session_totals ` set (generate_session_data events)"
    using session_totals_perm_sub [OF assms [symmetric]] by blast
qed

theorem session_totals_order_independent_witness:
  "mset [late_event, early_event] = mset [early_event, late_event] \<and>
   session_totals ` set (generate_session_data [late_event, early_event]) =
   session_totals ` set (generate_session_data [early_event, late_event]) \<and>
   session_totals ` set (generate_session_data [early_event, late_event]) =
     {(''sess_001'', 2, 1, Some (timedelta 19000 9 30))}"
proof -
  have p: "mset [late_event, early_event] = mset [early_event, late_event]"
    by (simp add: add.commute)
  show ?thesis
    using p session_totals_order_independent [OF p]
    by (simp add: sample_early_late session_totals_def)
qed

text \<open>
  Claim C2 as stated fails: the two orders of the same two events give different session
  records (start, device type and platform are those of the first event).
\<close>

theorem session_records_order_dependent:
  "mset [late_event, early_event] = mset [early_event, late_event] \<and>
   set (generate_session_data [late_event, early_event]) \<noteq>
   set (generate_session_data [early_event, late_event])"
  by (simp add: sample_early_late sample_late_early add.commute)

section \<open>Reasoning about the computations\<close>

lemma resultsI: "m w = Inr (x, w') \<Longrightarrow> x \<in> results m"
  by (auto simp: results_def)

lemma gbind_Inr_iff:
  "gbind m f w = Inr r \<longleftrightarrow> (\<exists>x w1. m w = Inr (x, w1) \<and> f x w1 = Inr r)"
  by (auto simp: gbind_def split: sum.splits)

lemma gret_Inr_iff: "gret x w = Inr r \<longleftrightarrow> r = (x, w)"
  by (auto simp: gret_def)

lemma raise_not_Inr: "raise e w \<noteq> Inr r"
  by (simp add: raise_def)

lemma results_gret: "results (gret x) = {x}"
  by (auto simp: results_def gret_def)

lemma results_raise: "results (raise e) = {}"
  by (auto simp: results_def raise_def)

lemma results_gbind: "y \<in> results (gbind m f) \<Longrightarrow> \<exists>x\<in>results m. y \<in> results (f x)"
  by (auto simp: results_def gbind_Inr_iff)

lemma results_randint: "x \<in> results (randint a b) \<Longrightarrow> a \<le> x \<and> x \<le> b"
proof -
  assume "x \<in> results (randint a b)"
  then obtain r where ab: "a \<le> b" and x: "x = a + int r mod (b - a + 1)"
    by (auto simp: results_def randint_def gbind_Inr_iff gret_Inr_iff raise_not_Inr
          split: if_splits)
  have "0 < b - a + 1" using ab by simp
  then have "0 \<le> int r mod (b - a + 1)" "int r mod (b - a + 1) < b - a + 1"
    by (rule pos_mod_sign, rule pos_mod_bound)
  with x show ?thesis by simp
qed

lemma results_choice: "x \<in> results (choice xs) \<Longrightarrow> x \<in> set xs"
  by (auto simp: results_def choice_def gbind_Inr_iff gret_Inr_iff raise_not_Inr
        split: if_splits)

lemma results_choices: "x \<in> results (choices xs) \<Longrightarrow> x \<in> set xs"
  by (simp add: choices_def results_choice)

lemma results_for_each:
  "ys \<in> results (for_each xs body) \<Longrightarrow>
     \<exists>yss. ys = concat yss \<and> list_all2 (\<lambda>x zs. zs \<in> results (body x)) xs yss"
proof (induction xs arbitrary: ys)
  case Nil
  then show ?case by (simp add: results_gret)
next
  case (Cons x xs)
  from Cons.prems obtain zs where zs: "zs \<in> results (body x)"
    and r: "ys \<in> results (gbind (for_each xs body) (\<lambda>us. gret (zs @ us)))"
    by (auto dest: results_gbind)
  from r obtain us where us: "us \<in> results (for_each xs body)" and ys: "ys = zs @ us"
    by (auto dest!: results_gbind simp: results_gret)
  from Cons.IH [OF us] obtain yss where "us = concat yss"
    and "list_all2 (\<lambda>x zs. zs \<in> results (body x)) xs yss" by blast
  with zs ys have "ys = concat (zs # yss) \<and> list_all2 (\<lambda>x zs. zs \<in> results (body x)) (x # xs) (zs # yss)"
    by simp
  then show ?case by blast
qed

lemma list_all2_right_memD:
  "list_all2 P xs ys \<Longrightarrow> y \<in> set ys \<Longrightarrow> \<exists>x\<in>set xs. P x y"
  by (induction rule: list_all2_induct) auto

lemma for_each_all:
  assumes "ys \<in> results (for_each xs body)"
    and "\<And>x zs z. x \<in> set xs \<Longrightarrow> zs \<in> results (body x) \<Longrightarrow> z \<in> set zs \<Longrightarrow> P x z"
    and "y \<in> set ys"
  shows "\<exists>x\<in>set xs. P x y"
proof -
  from results_for_each [OF assms(1)] obtain yss where ys: "ys = concat yss"
    and l: "list_all2 (\<lambda>x zs. zs \<in> results (body x)) xs yss" by blast
  from assms(3) ys obtain zs where zs: "zs \<in> set yss" and y: "y \<in> set zs" by auto
  from list_all2_right_memD [OF l zs] obtain x where "x \<in> set xs" and "zs \<in> results (body x)"
    by blast
  with assms(2) y show ?thesis by blast
qed

lemma for_each_length:
  assumes "ys \<in> results (for_each xs body)"
    and "\<And>x zs. x \<in> set xs \<Longrightarrow> zs \<in> results (body x) \<Longrightarrow> length zs \<le> k"
  shows "length ys \<le> length xs * k"
proof -
  from results_for_each [OF assms(1)] obtain yss where ys: "ys = concat yss"
    and l: "list_all2 (\<lambda>x zs. zs \<in> results (body x)) xs yss" by blast
  have "\<forall>zs\<in>set yss. length zs \<le> k"
    using assms(2) list_all2_right_memD [OF l] by blast
  then have "sum_list (map length yss) \<le> length yss * k"
    by (induction yss) auto
  moreover have "length yss = length xs" using l by (simp add: list_all2_lengthD)
  ultimately show ?thesis using ys by (simp add: length_concat)
qed

lemma for_each_card:
  assumes "ys \<in> results (for_each xs body)"
    and "\<And>x zs. x \<in> set xs \<Longrightarrow> zs \<in> results (body x) \<Longrightarrow> card (f ` set zs) \<le> k"
  shows "card (f ` set ys) \<le> length xs * k"
proof -
  from results_for_each [OF assms(1)] obtain yss where ys: "ys = concat yss"
    and l: "list_all2 (\<lambda>x zs. zs \<in> results (body x)) xs yss" by blast
  have "\<forall>zs\<in>set yss. card (f ` set zs) \<le> k"
    using assms(2) list_all2_right_memD [OF l] by blast
  then have "card (f ` set (concat yss)) \<le> length yss * k"
  proof (induction yss)
    case Nil
    then show ?case by simp
  next
    case (Cons zs yss)
    have "card (f ` set (concat (zs # yss))) \<le> card (f ` set zs) + card (f ` set (concat yss))"
      by (simp add: image_Un card_Un_le)
    with Cons show ?case by simp
  qed
  moreover have "length yss = length xs" using l by (simp add: list_all2_lengthD)
  ultimately show ?thesis using ys by simp
qed

lemma results_gbindE:
  assumes "y \<in> results (gbind m f)"
  obtains x where "x \<in> results m" and "y \<in> results (f x)"
  using results_gbind [OF assms] by blast

lemma results_gretE:
  assumes "y \<in> results (gret x)"
  obtains "y = x"
  using assms by (simp add: results_gret)

section \<open>Properties of the generated events\<close>

lemma results_event_metadata:
  assumes "md \<in> results (event_metadata ty)"
  shows "map fst md = metadata_keys ty"
proof (cases "ty = ''purchase''")
  case True
  with assms show ?thesis
    unfolding event_metadata_def metadata_keys_def if_P [OF True]
    by (elim results_gbindE results_gretE) simp
next
  case c1: False
  show ?thesis
  proof (cases "ty = ''page_view''")
    case True
    with assms c1 show ?thesis
      unfolding event_metadata_def metadata_keys_def if_not_P [OF c1] if_P [OF True]
      by (elim results_gbindE results_gretE) simp
  next
    case c2: False
    show ?thesis
    proof (cases "ty = ''signup''")
      case True
      with assms show ?thesis
        unfolding event_metadata_def metadata_keys_def if_not_P [OF c1] if_not_P [OF c2]
          if_P [OF True]
        by (elim results_gbindE results_gretE) simp
    next
      case c3: False
      show ?thesis
      proof (cases "ty \<in> set [''click'', ''scroll'']")
        case True
        then have k: "ty = ''click'' \<or> ty = ''scroll''" by simp
        from assms show ?thesis
          unfolding event_metadata_def metadata_keys_def if_not_P [OF c1] if_not_P [OF c2]
            if_not_P [OF c3] if_P [OF True] if_P [OF k]
          by (elim results_gbindE results_gretE) simp
      next
        case c4: False
        then have k: "\<not> (ty = ''click'' \<or> ty = ''scroll'')" by simp
        show ?thesis
        proof (cases "ty = ''search''")
          case True
          from assms show ?thesis
            unfolding event_metadata_def metadata_keys_def if_not_P [OF c1] if_not_P [OF c2]
              if_not_P [OF c3] if_not_P [OF c4] if_not_P [OF k] if_P [OF True]
            by (elim results_gbindE results_gretE) simp
        next
          case c5: False
          from assms show ?thesis
            unfolding event_metadata_def metadata_keys_def if_not_P [OF c1] if_not_P [OF c2]
              if_not_P [OF c3] if_not_P [OF c4] if_not_P [OF k] if_not_P [OF c5]
            by (elim results_gretE) simp
        qed
      qed
    qed
  qed
qed

lemma results_simple_event_metadata:
  assumes "md \<in> results (simple_event_metadata ty)"
  shows "map fst md = simple_metadata_keys ty"
proof (cases "ty = ''purchase''")
  case True
  with assms show ?thesis
    unfolding simple_event_metadata_def simple_metadata_keys_def if_P [OF True]
    by (elim results_gbindE results_gretE) simp
next
  case c1: False
  show ?thesis
  proof (cases "ty = ''page_view''")
    case True
    with assms c1 show ?thesis
      unfolding simple_event_metadata_def simple_metadata_keys_def if_not_P [OF c1] if_P [OF True]
      by (elim results_gbindE results_gretE) simp
  next
    case c2: False
    show ?thesis
    proof (cases "ty = ''signup''")
      case True
      with assms show ?thesis
        unfolding simple_event_metadata_def simple_metadata_keys_def if_not_P [OF c1]
          if_not_P [OF c2] if_P [OF True]
        by (elim results_gbindE results_gretE) simp
    next
      case c3: False
      from assms show ?thesis
        unfolding simple_event_metadata_def simple_metadata_keys_def if_not_P [OF c1]
          if_not_P [OF c2] if_not_P [OF c3]
        by (elim results_gretE) simp
    qed
  qed
qed

lemma results_generate_event:
  assumes "evs \<in> results (generate_event uid sid start)"
  shows "\<exists>e. evs = [e] \<and> e_user_id e = uid \<and> e_session_id e = sid \<and>
           start \<le> e_event_timestamp e \<and> e_event_timestamp e \<le> start + timedelta 0 0 120 \<and>
           e_event_type e \<in> set EVENT_TYPES \<and>
           map fst (e_metadata e) = metadata_keys (e_event_type e)"
  using assms unfolding generate_event_def Let_def
  apply (elim results_gbindE results_gretE)
  apply (simp add: timedelta_def)
  apply (auto dest!: results_randint results_choices results_event_metadata)
  done

lemma date_mono: "s \<le> t \<Longrightarrow> date s \<le> date t"
  by (simp add: date_def zdiv_mono1)

lemma results_generate_day:
  assumes "evs \<in> results (generate_day cfg start uid created off)"
  shows "length evs \<le> nat (snd (EVENTS_PER_USER_PER_DAY cfg)) \<and>
         (\<exists>sid. \<forall>e\<in>set evs. e_session_id e = sid \<and> e_user_id e = uid \<and>
            date created \<le> date (e_event_timestamp e) \<and>
            start + timedelta off 8 0 \<le> e_event_timestamp e \<and>
            e_event_timestamp e \<le> start + timedelta off 20 179 \<and>
            e_event_type e \<in> set EVENT_TYPES \<and>
            map fst (e_metadata e) = metadata_keys (e_event_type e))"
proof (cases "date (start + timedelta off 0 0) < date created")
  case True
  with assms have "evs = []"
    by (simp add: generate_day_def Let_def results_gret)
  then show ?thesis by simp
next
  case False
  let ?lo = "fst (EVENTS_PER_USER_PER_DAY cfg)" and ?hi = "snd (EVENTS_PER_USER_PER_DAY cfg)"
  from assms False obtain n sid h m where n: "n \<in> results (randint ?lo ?hi)"
    and h: "h \<in> results (randint 8 20)" and m: "m \<in> results (randint 0 59)"
    and evs: "evs \<in> results (for_each (range_py n)
                (\<lambda>event_num. generate_event uid sid (start + timedelta off 0 0 + timedelta 0 h m)))"
    unfolding generate_day_def Let_def if_not_P [OF False]
    by (elim results_gbindE)
  let ?s = "start + timedelta off 0 0 + timedelta 0 h m"
  from results_randint [OF h] results_randint [OF m]
  have lo: "start + timedelta off 8 0 \<le> ?s" and hi: "?s + timedelta 0 0 120 \<le> start + timedelta off 20 179"
    and ge: "start + timedelta off 0 0 \<le> ?s"
    by (simp_all add: timedelta_def)
  have "length evs \<le> length (range_py n) * 1"
    using evs by (rule for_each_length) (auto dest: results_generate_event)
  moreover have "n \<le> ?hi" using results_randint [OF n] by simp
  ultimately have len: "length evs \<le> nat ?hi" by (simp add: range_py_def)
  have "\<forall>e\<in>set evs. e_session_id e = sid \<and> e_user_id e = uid \<and>
            date created \<le> date (e_event_timestamp e) \<and>
            start + timedelta off 8 0 \<le> e_event_timestamp e \<and>
            e_event_timestamp e \<le> start + timedelta off 20 179 \<and>
            e_event_type e \<in> set EVENT_TYPES \<and>
            map fst (e_metadata e) = metadata_keys (e_event_type e)"
  proof
    fix e assume e: "e \<in> set evs"
    have "\<exists>x\<in>set (range_py n). e_session_id e = sid \<and> e_user_id e = uid \<and>
            ?s \<le> e_event_timestamp e \<and> e_event_timestamp e \<le> ?s + timedelta 0 0 120 \<and>
            e_event_type e \<in> set EVENT_TYPES \<and>
            map fst (e_metadata e) = metadata_keys (e_event_type e)"
      using evs _ e by (rule for_each_all) (auto dest: results_generate_event)
    then have p: "e_session_id e = sid" "e_user_id e = uid"
      "?s \<le> e_event_timestamp e" "e_event_timestamp e \<le> ?s + timedelta 0 0 120"
      "e_event_type e \<in> set EVENT_TYPES"
      "map fst (e_metadata e) = metadata_keys (e_event_type e)" by auto
    have "date created \<le> date (start + timedelta off 0 0)" using False by simp
    also have "\<dots> \<le> date (e_event_timestamp e)" using ge p(3) by (intro date_mono) simp
    finally show "e_session_id e = sid \<and> e_user_id e = uid \<and>
            date created \<le> date (e_event_timestamp e) \<and>
            start + timedelta off 8 0 \<le> e_event_timestamp e \<and>
            e_event_timestamp e \<le> start + timedelta off 20 179 \<and>
            e_event_type e \<in> set EVENT_TYPES \<and>
            map fst (e_metadata e) = metadata_keys (e_event_type e)"
      using p lo hi by simp
  qed
  with len show ?thesis by blast
qed

lemma results_generate_user_events:
  assumes "evs \<in> results (generate_user_events cfg start user)"
  shows "length evs \<le> nat (NUM_DAYS cfg) * nat (snd (EVENTS_PER_USER_PER_DAY cfg))"
    and "card (e_session_id ` set evs) \<le> nat (NUM_DAYS cfg)"
    and "\<forall>e\<in>set evs. generated_ok (u_user_id user) (u_created_at user) e"
proof -
  let ?body = "generate_day cfg start (u_user_id user) (u_created_at user)"
  from assms have evs: "evs \<in> results (for_each (range_py (NUM_DAYS cfg)) ?body)"
    by (simp add: generate_user_events_def Let_def)
  have "length evs \<le> length (range_py (NUM_DAYS cfg)) * nat (snd (EVENTS_PER_USER_PER_DAY cfg))"
    using evs by (rule for_each_length) (simp add: results_generate_day)
  then show "length evs \<le> nat (NUM_DAYS cfg) * nat (snd (EVENTS_PER_USER_PER_DAY cfg))"
    by (simp add: range_py_def)
  have "card (e_session_id ` set evs) \<le> length (range_py (NUM_DAYS cfg)) * 1"
    using evs
  proof (rule for_each_card)
    fix off zs assume "zs \<in> results (?body off)"
    from results_generate_day [OF this] obtain sid where "\<forall>e\<in>set zs. e_session_id e = sid"
      by blast
    then have "e_session_id ` set zs \<subseteq> {sid}" by auto
    then have "card (e_session_id ` set zs) \<le> card {sid}" by (intro card_mono) simp_all
    then show "card (e_session_id ` set zs) \<le> 1" by simp
  qed
  then show "card (e_session_id ` set evs) \<le> nat (NUM_DAYS cfg)"
    by (simp add: range_py_def)
  show "\<forall>e\<in>set evs. generated_ok (u_user_id user) (u_created_at user) e"
  proof
    fix e assume e: "e \<in> set evs"
    have "\<exists>off\<in>set (range_py (NUM_DAYS cfg)). generated_ok (u_user_id user) (u_created_at user) e"
      using evs _ e
    proof (rule for_each_all)
      fix off zs z assume "zs \<in> results (?body off)" and "z \<in> set zs"
      with results_generate_day [of zs cfg start "u_user_id user" "u_created_at user" off]
      show "generated_ok (u_user_id user) (u_created_at user) z"
        by (auto simp: generated_ok_def)
    qed
    then show "generated_ok (u_user_id user) (u_created_at user) e" by blast
  qed
qed

lemma results_generate_event_data:
  assumes "evs \<in> results (generate_event_data cfg users)"
  shows "length evs \<le> length users * (nat (NUM_DAYS cfg) * nat (snd (EVENTS_PER_USER_PER_DAY cfg)))"
    and "card (e_session_id ` set evs) \<le> length users * nat (NUM_DAYS cfg)"
    and "\<forall>e\<in>set evs. \<exists>u\<in>set users. generated_ok (u_user_id u) (u_created_at u) e"
proof -
  from assms obtain t where
    evs: "evs \<in> results (for_each users
            (generate_user_events cfg (t - timedelta (NUM_DAYS cfg) 0 0)))"
    unfolding generate_event_data_def Let_def by (elim results_gbindE)
  show "length evs \<le> length users * (nat (NUM_DAYS cfg) * nat (snd (EVENTS_PER_USER_PER_DAY cfg)))"
    using evs by (rule for_each_length) (rule results_generate_user_events)
  show "card (e_session_id ` set evs) \<le> length users * nat (NUM_DAYS cfg)"
    using evs by (rule for_each_card) (rule results_generate_user_events)
  show "\<forall>e\<in>set evs. \<exists>u\<in>set users. generated_ok (u_user_id u) (u_created_at u) e"
  proof
    fix e assume e: "e \<in> set evs"
    show "\<exists>u\<in>set users. generated_ok (u_user_id u) (u_created_at u) e"
      using evs _ e
    proof (rule for_each_all)
      fix u zs z
      assume "zs \<in> results (generate_user_events cfg (t - timedelta (NUM_DAYS cfg) 0 0) u)"
        and "z \<in> set zs"
      with results_generate_user_events(3) show "generated_ok (u_user_id u) (u_created_at u) z"
        by blast
    qed
  qed
qed

section \<open>Events and the creation of their user\<close>

lemma run_results: "run m w = Inr x \<Longrightarrow> x \<in> results m"
  by (auto simp: run_def results_def split: sum.splits)

lemma late_user_run:
  "run (generate_event_data small_config [late_user]) crossing_world =
     Inr (returned (generate_event_data small_config [late_user]) crossing_world)"
  by code_simp

lemma late_user_times:
  "event_times (returned (generate_event_data small_config [late_user]) crossing_world) =
     [(''user_0000000a'', timedelta 18999 7 59)]"
  by code_simp




section \<open>Numbers of events and sessions\<close>

lemma round_half_even_nonneg: "0 \<le> n \<Longrightarrow> 0 < d \<Longrightarrow> 0 \<le> round_half_even n d"
  by (simp add: round_half_even_def Let_def pos_imp_zdiv_nonneg_iff)

lemma total_seconds_int_nonneg:
  assumes "0 \<le> td"
  shows "0 \<le> total_seconds_int td"
proof -
  define e where "e = floor_log2 td 1000000 - 52"
  have "0 \<le> round_half_even td (1000000 * 2 ^ nat e)"
    using assms by (intro round_half_even_nonneg) simp_all
  moreover have "0 \<le> round_half_even (td * 2 ^ nat (- e)) 1000000"
    using assms by (intro round_half_even_nonneg) simp_all
  ultimately show ?thesis
    using assms
    by (simp add: total_seconds_int_def true_divide_def int_of_float_def Let_def
        e_def [symmetric] pos_imp_zdiv_nonneg_iff)
qed

lemma session_duration_nonneg:
  assumes "s \<in> set (generate_session_data events)"
  shows "\<exists>d. s_duration_seconds s = Some d \<and> 0 \<le> d"
proof -
  let ?g = "session_events (s_session_id s) events"
  let ?T = "set (map e_event_timestamp ?g)"
  from assms have g: "?g \<noteq> []" and s: "s = calculate_duration (folded ?g)"
    by (auto elim: generate_session_data_cases)
  have "e_event_timestamp (hd ?g) \<in> ?T" using g by simp
  then have le: "e_event_timestamp (hd ?g) \<le> Max ?T" by (intro Max_ge) simp_all
  have "s_duration_seconds s = Some (total_seconds_int (Max ?T - e_event_timestamp (hd ?g)))"
    by (subst s) (simp add: folded_fields)
  with le show ?thesis by (simp add: total_seconds_int_nonneg)
qed

lemma foldl_fold_event_keys: "fst ` set (foldl fold_event [] evs) = e_session_id ` set evs"
  by (induction evs rule: rev_induct) (simp_all add: fold_event_keys)

lemma length_generate_session_data:
  "length (generate_session_data events) = card (e_session_id ` set events)"
proof -
  have "length (generate_session_data events) = length (map fst (foldl fold_event [] events))"
    by (simp add: generate_session_data_def)
  also have "\<dots> = card (set (map fst (foldl fold_event [] events)))"
    by (rule distinct_card [symmetric]) (rule foldl_fold_event_distinct)
  also have "set (map fst (foldl fold_event [] events)) = e_session_id ` set events"
    using foldl_fold_event_keys [of events] by simp
  finally show ?thesis .
qed

lemma late_user_sessions:
  "map s_session_id
     (generate_session_data (returned (generate_event_data small_config [late_user]) crossing_world))
     = [''sess_00000000'']"
  by code_simp

text \<open>
  Claim C10. A run of \<^verbatim>\<open>generate_event_data\<close> on \<open>U\<close> users with a span of \<open>D\<close> days and
  the range \<open>(min, max)\<close> returns at most \<open>U * D * max\<close> events, which carry at most \<open>U * D\<close>
  distinct session identifiers; the sessions derived from them are as many as these
  identifiers, and the duration of each is not negative. A negative \<open>D\<close> or \<open>max\<close> counts as
  zero.
\<close>

theorem event_and_session_counts:
  assumes "run (generate_event_data cfg users) w = Inr events"
  shows "length events
           \<le> length users * nat (NUM_DAYS cfg) * nat (snd (EVENTS_PER_USER_PER_DAY cfg)) \<and>
         card (e_session_id ` set events) \<le> length users * nat (NUM_DAYS cfg) \<and>
         length (generate_session_data events) = card (e_session_id ` set events) \<and>
         (\<forall>s\<in>set (generate_session_data events). \<exists>d. s_duration_seconds s = Some d \<and> 0 \<le> d)"
  using results_generate_event_data(1,2) [OF run_results [OF assms]]
  by (simp add: mult.assoc length_generate_session_data session_duration_nonneg)

theorem event_and_session_counts_witness:
  "run (generate_event_data small_config [late_user]) crossing_world =
     Inr (returned (generate_event_data small_config [late_user]) crossing_world) \<and>
   length (returned (generate_event_data small_config [late_user]) crossing_world) = 1 \<and>
   length (returned (generate_event_data small_config [late_user]) crossing_world)
     \<le> length [late_user] * nat (NUM_DAYS small_config)
          * nat (snd (EVENTS_PER_USER_PER_DAY small_config)) \<and>
   card (e_session_id ` set (returned (generate_event_data small_config [late_user]) crossing_world))
     \<le> length [late_user] * nat (NUM_DAYS small_config) \<and>
   length (generate_session_data
            (returned (generate_event_data small_config [late_user]) crossing_world))
     = card (e_session_id `
              set (returned (generate_event_data small_config [late_user]) crossing_world)) \<and>
   hd (generate_session_data
         (returned (generate_event_data small_config [late_user]) crossing_world))
     \<in> set (generate_session_data
                (returned (generate_event_data small_config [late_user]) crossing_world)) \<and>
   (\<exists>d. s_duration_seconds
          (hd (generate_session_data
                 (returned (generate_event_data small_config [late_user]) crossing_world)))
          = Some d \<and> 0 \<le> d)"
proof -
  let ?evs = "returned (generate_event_data small_config [late_user]) crossing_world"
  have "length (event_times ?evs) = 1"
    by (simp add: late_user_times)
  then have l: "length ?evs = 1"
    by (simp add: event_times_def)
  have "generate_session_data ?evs \<noteq> []" using late_user_sessions by auto
  then have m: "hd (generate_session_data ?evs) \<in> set (generate_session_data ?evs)" by simp
  show ?thesis
    using event_and_session_counts [OF late_user_run] late_user_run l m by blast
qed

text \<open>
  The scenario of the specification: 10 users, 7 days and 1 to 3 events per user and day
  give at most 210 events and at most 70 session identifiers.
\<close>

lemma example_scenario:
  assumes "run (generate_event_data
                  \<lparr> NUM_USERS = 10, NUM_DAYS = 7, EVENTS_PER_USER_PER_DAY = (1, 3) \<rparr> users) w
             = Inr events"
    and "length users = 10"
  shows "length events \<le> 210" and "card (e_session_id ` set events) \<le> 70"
  using results_generate_event_data(1,2) [OF run_results [OF assms(1)]] assms(2) by simp_all

section \<open>Metadata of an event\<close>

lemma results_simple_event:
  assumes "evs \<in> results (simple_event cfg user_ids i)"
  shows "\<exists>e. evs = [e] \<and> e_user_id e \<in> set user_ids \<and> e_event_type e \<in> set EVENT_TYPES \<and>
           map fst (e_metadata e) = simple_metadata_keys (e_event_type e)"
  using assms unfolding simple_event_def Let_def
  apply (elim results_gbindE results_gretE)
  apply (simp add: results_choice results_simple_event_metadata)
  done

lemma results_simple_events:
  assumes "evs \<in> results (simple_events cfg users)" and "e \<in> set evs"
  shows "e_user_id e \<in> u_user_id ` set users"
    and "map fst (e_metadata e) = simple_metadata_keys (e_event_type e)"
proof -
  let ?P = "\<lambda>(i::int) e. e_user_id e \<in> u_user_id ` set users \<and>
              map fst (e_metadata e) = simple_metadata_keys (e_event_type e)"
  from assms(1) have evs:
    "evs \<in> results (for_each (range_py (num_events cfg)) (simple_event cfg (map u_user_id users)))"
    by (simp add: simple_events_def Let_def)
  have "\<exists>i\<in>set (range_py (num_events cfg)). ?P i e"
  proof (rule for_each_all [OF evs _ assms(2)])
    fix i zs z
    assume "zs \<in> results (simple_event cfg (map u_user_id users) i)" and "z \<in> set zs"
    with results_simple_event [of zs cfg "map u_user_id users" i] show "?P i z" by auto
  qed
  then show "e_user_id e \<in> u_user_id ` set users"
    and "map fst (e_metadata e) = simple_metadata_keys (e_event_type e)" by auto
qed

lemma simple_events_run:
  "run (simple_events simple_small_config [late_user]) counting_world =
     Inr (returned (simple_events simple_small_config [late_user]) counting_world)"
  by code_simp

lemma simple_events_keys:
  "event_keys (returned (simple_events simple_small_config [late_user]) counting_world) =
     [(''page_view'', [''page'', ''category''])]"
  by code_simp

lemma late_user_keys:
  "event_keys (returned (generate_event_data small_config [late_user]) crossing_world) =
     [(''purchase'', [''amount'', ''currency'', ''product_id'', ''category''])]"
  by code_simp

text \<open>
  Claim C9. The keys of the metadata of an event are a function of its event type. For
  the events of \<^verbatim>\<open>generate_event_data\<close> it is the function of the specification. For the
  events of \<^verbatim>\<open>simple_data_generator.py\<close> it is another one: purchase, page\_view and signup
  as in the specification, and no metadata for any other type, click, scroll and search
  included.
\<close>

theorem metadata_keys_by_event_type:
  "(run (generate_event_data cfg users) w = Inr events \<longrightarrow>
      (\<forall>e\<in>set events. map fst (e_metadata e) = metadata_keys (e_event_type e))) \<and>
   (run (simple_events scfg users') w' = Inr events' \<longrightarrow>
      (\<forall>e\<in>set events'. map fst (e_metadata e) = simple_metadata_keys (e_event_type e))) \<and>
   simple_metadata_keys ty =
     (if ty \<in> {''click'', ''scroll'', ''search''} then [] else metadata_keys ty)"
proof (intro conjI impI ballI)
  fix e
  assume "run (generate_event_data cfg users) w = Inr events" and "e \<in> set events"
  with results_generate_event_data(3) [OF run_results]
  show "map fst (e_metadata e) = metadata_keys (e_event_type e)"
    by (fastforce simp: generated_ok_def)
next
  fix e
  assume "run (simple_events scfg users') w' = Inr events'" and "e \<in> set events'"
  with results_simple_events(2) [OF run_results]
  show "map fst (e_metadata e) = simple_metadata_keys (e_event_type e)" by blast
next
  show "simple_metadata_keys ty =
          (if ty \<in> {''click'', ''scroll'', ''search''} then [] else metadata_keys ty)"
    by (simp add: simple_metadata_keys_def metadata_keys_def)
qed

theorem metadata_keys_by_event_type_witness:
  "run (generate_event_data small_config [late_user]) crossing_world =
     Inr (returned (generate_event_data small_config [late_user]) crossing_world) \<and>
   run (simple_events simple_small_config [late_user]) counting_world =
     Inr (returned (simple_events simple_small_config [late_user]) counting_world) \<and>
   event_keys (returned (generate_event_data small_config [late_user]) crossing_world) =
     [(''purchase'', [''amount'', ''currency'', ''product_id'', ''category''])] \<and>
   event_keys (returned (simple_events simple_small_config [late_user]) counting_world) =
     [(''page_view'', [''page'', ''category''])] \<and>
   hd (returned (generate_event_data small_config [late_user]) crossing_world)
     \<in> set (returned (generate_event_data small_config [late_user]) crossing_world) \<and>
   hd (returned (simple_events simple_small_config [late_user]) counting_world)
     \<in> set (returned (simple_events simple_small_config [late_user]) counting_world) \<and>
   map fst (e_metadata (hd (returned (generate_event_data small_config [late_user]) crossing_world)))
     = metadata_keys
         (e_event_type (hd (returned (generate_event_data small_config [late_user]) crossing_world))) \<and>
   map fst (e_metadata (hd (returned (simple_events simple_small_config [late_user]) counting_world)))
     = simple_metadata_keys
         (e_event_type (hd (returned (simple_events simple_small_config [late_user]) counting_world))) \<and>
   simple_metadata_keys ''click'' = [] \<and> simple_metadata_keys ''purchase'' = metadata_keys ''purchase''"
proof -
  let ?a = "returned (generate_event_data small_config [late_user]) crossing_world"
  let ?b = "returned (simple_events simple_small_config [late_user]) counting_world"
  have "?a \<noteq> []" using late_user_keys by (auto simp: event_keys_def)
  then have a: "hd ?a \<in> set ?a" by simp
  have "?b \<noteq> []" using simple_events_keys by (auto simp: event_keys_def)
  then have b: "hd ?b \<in> set ?b" by simp
  note t1 = metadata_keys_by_event_type
              [of small_config "[late_user]" crossing_world ?a
                  simple_small_config "[late_user]" counting_world ?b "''click''"]
  note t2 = metadata_keys_by_event_type
              [of small_config "[late_user]" crossing_world ?a
                  simple_small_config "[late_user]" counting_world ?b "''purchase''"]
  from t1 late_user_run a
  have A: "map fst (e_metadata (hd ?a)) = metadata_keys (e_event_type (hd ?a))" by blast
  from t1 simple_events_run b
  have B: "map fst (e_metadata (hd ?b)) = simple_metadata_keys (e_event_type (hd ?b))" by blast
  from t1 have C: "simple_metadata_keys ''click'' = []" by simp
  from t2 have D: "simple_metadata_keys ''purchase'' = metadata_keys ''purchase''" by simp
  show ?thesis
    using late_user_run simple_events_run late_user_keys simple_events_keys a b A B C D
    by blast
qed

text \<open>
  A run of \<^verbatim>\<open>generate_sample_data\<close> of \<^verbatim>\<open>simple_data_generator.py\<close> with one user and one
  event: the event is a click and its metadata is empty, where the specification has the
  keys element and page.
\<close>

theorem click_event_without_metadata:
  "sample_event_keys simple_small_config counting_world = Inr [(''click'', [])] \<and>
   metadata_keys ''click'' = [''element'', ''page'']"
  by code_simp

section \<open>Creation and last update of a user\<close>

text \<open>
  \<^verbatim>\<open>generate_user_data\<close> derives the last update from the creation: the creation is 1 to
  365 days before a reading of the clock, the last update 0 to 30 days after the creation.
\<close>

lemma results_generate_user:
  assumes "us \<in> results generate_user"
  shows "\<exists>u. us = [u] \<and>
           (\<exists>k\<in>{0..30}. u_updated_at u = u_created_at u + timedelta k 0 0) \<and>
           u_created_at u \<le> u_updated_at u"
  using assms unfolding generate_user_def Let_def
  apply (elim results_gbindE results_gretE)
  apply (simp add: timedelta_def)
  apply (drule results_randint)+
  apply simp
  done

lemma results_generate_user_data:
  assumes "users \<in> results (generate_user_data cfg)" and "u \<in> set users"
  shows "u_created_at u \<le> u_updated_at u"
    and "\<exists>k\<in>{0..30}. u_updated_at u = u_created_at u + timedelta k 0 0"
proof -
  let ?P = "\<lambda>(i::int) u. u_created_at u \<le> u_updated_at u \<and>
              (\<exists>k\<in>{0..30}. u_updated_at u = u_created_at u + timedelta k 0 0)"
  from assms(1) have us:
    "users \<in> results (for_each (range_py (NUM_USERS cfg)) (\<lambda>i. generate_user))"
    by (simp add: generate_user_data_def)
  have "\<exists>i\<in>set (range_py (NUM_USERS cfg)). ?P i u"
  proof (rule for_each_all [OF us _ assms(2)])
    fix i :: int and zs z
    assume "zs \<in> results generate_user" and "z \<in> set zs"
    with results_generate_user [of zs] show "?P i z" by auto
  qed
  then show "u_created_at u \<le> u_updated_at u"
    and "\<exists>k\<in>{0..30}. u_updated_at u = u_created_at u + timedelta k 0 0" by auto
qed

text \<open>
  Claim C8. \<^verbatim>\<open>generate_sample_data\<close> of \<^verbatim>\<open>simple_data_generator.py\<close> does not derive the last
  update from the creation: it draws both as a number of days before a reading of the
  clock, 1 to 365 for the creation and 0 to 30 for the last update. With the draws 1 and 30
  the user is created one day before the run and last updated 30 days before it, 29 days
  before its creation.
\<close>

theorem simple_user_updated_before_created:
  "sample_user_dates simple_small_config thirties_world =
     Inr [(''user_0001'', timedelta 18999 12 0, timedelta 18970 12 0)] \<and>
   timedelta 18970 12 0 < timedelta 18999 12 0"
  by code_simp

section \<open>The user of a session\<close>

lemma day_batch_run:
  "run (generate_day small_config (timedelta 18998 0 1) ''user_0000000a'' (timedelta 18998 23 59) 0)
       crossing_world =
     Inr (returned
            (generate_day small_config (timedelta 18998 0 1) ''user_0000000a''
               (timedelta 18998 23 59) 0) crossing_world)"
  by code_simp

lemma sample_late_other:
  "generate_session_data [late_event, other_user_event] =
     [\<lparr> s_session_id = ''sess_001'', s_user_id = ''user_0001'',
        s_started_at = timedelta 19000 9 30, s_ended_at = Some (timedelta 19000 9 45),
        s_duration_seconds = Some 900, s_page_views = 1, s_events_count = 2,
        s_device_type = ''desktop'', s_platform = ''web'', s_country = None,
        s_metadata = [] \<rparr>]"
  by (simp add: sample_defs)

text \<open>
  Claim C7. The user of a session record is the user of the first event of the list that
  carries the session identifier; the events that follow are counted in the session
  whatever their user. \<^verbatim>\<open>generate_event_data\<close> draws one session identifier for the events
  of a user on a day, so the events of such a batch have one session identifier and one
  user.
\<close>

theorem session_user_is_first_event_user:
  "(s \<in> set (generate_session_data events) \<longrightarrow>
      session_events (s_session_id s) events \<noteq> [] \<and>
      s_user_id s = e_user_id (hd (session_events (s_session_id s) events)) \<and>
      s_events_count s = int (length (session_events (s_session_id s) events))) \<and>
   (run (generate_day cfg start_date user_id user_created_at day_offset) w = Inr batch \<longrightarrow>
      (\<exists>sid. \<forall>e\<in>set batch. e_session_id e = sid \<and> e_user_id e = user_id))"
proof (intro conjI impI)
  assume s: "s \<in> set (generate_session_data events)"
  then show "session_events (s_session_id s) events \<noteq> []"
    by (rule generate_session_data_cases)
  from s have eq: "s = calculate_duration (folded (session_events (s_session_id s) events))"
    by (rule generate_session_data_cases)
  show "s_user_id s = e_user_id (hd (session_events (s_session_id s) events))"
    by (subst eq) (simp add: folded_fields)
  show "s_events_count s = int (length (session_events (s_session_id s) events))"
    by (subst eq) (simp add: folded_fields)
next
  assume "run (generate_day cfg start_date user_id user_created_at day_offset) w = Inr batch"
  from results_generate_day [OF run_results [OF this]]
  show "\<exists>sid. \<forall>e\<in>set batch. e_session_id e = sid \<and> e_user_id e = user_id" by blast
qed

theorem session_user_is_first_event_user_witness:
  "hd (generate_session_data [late_event, other_user_event])
     \<in> set (generate_session_data [late_event, other_user_event]) \<and>
   run (generate_day small_config (timedelta 18998 0 1) ''user_0000000a'' (timedelta 18998 23 59) 0)
       crossing_world =
     Inr (returned
            (generate_day small_config (timedelta 18998 0 1) ''user_0000000a''
               (timedelta 18998 23 59) 0) crossing_world) \<and>
   session_events (s_session_id (hd (generate_session_data [late_event, other_user_event])))
     [late_event, other_user_event] \<noteq> [] \<and>
   s_user_id (hd (generate_session_data [late_event, other_user_event])) =
     e_user_id (hd (session_events
                      (s_session_id (hd (generate_session_data [late_event, other_user_event])))
                      [late_event, other_user_event])) \<and>
   (\<exists>sid. \<forall>e\<in>set (returned
                      (generate_day small_config (timedelta 18998 0 1) ''user_0000000a''
                         (timedelta 18998 23 59) 0) crossing_world).
            e_session_id e = sid \<and> e_user_id e = ''user_0000000a'')"
proof -
  have mem: "hd (generate_session_data [late_event, other_user_event])
               \<in> set (generate_session_data [late_event, other_user_event])"
    by (simp add: sample_late_other)
  show ?thesis
    using mem day_batch_run
      session_user_is_first_event_user
        [of "hd (generate_session_data [late_event, other_user_event])"
            "[late_event, other_user_event]"
            small_config "timedelta 18998 0 1" "''user_0000000a''" "timedelta 18998 23 59" 0
            crossing_world
            "returned (generate_day small_config (timedelta 18998 0 1) ''user_0000000a''
               (timedelta 18998 23 59) 0) crossing_world"]
    by blast
qed

text \<open>
  \<^verbatim>\<open>generate_sample_data\<close> of \<^verbatim>\<open>simple_data_generator.py\<close> draws the user and the session
  identifier of an event independently. In this run with two users and two events, both
  events carry the session identifier sess\_001, the first is of user\_0001 and the second
  of user\_0002; the one session record has the user user\_0001.
\<close>

theorem session_with_two_users:
  "sample_session_users simple_pair_config mixing_world =
     Inr ([(''sess_001'', ''user_0001''), (''sess_001'', ''user_0002'')],
          [(''sess_001'', ''user_0001'')])"
  by code_simp

section \<open>Configurations out of range\<close>

lemma run_gbind:
  "run (gbind m f) w = (case m w of Inl e \<Rightarrow> Inl e | Inr (x, w') \<Rightarrow> run (f x) w')"
  by (simp add: run_def gbind_def split: sum.splits prod.splits)










end
